theory Spec2Isabelle
  imports Main "HOL-Library.Char_ord" "HOL-Library.List_Lexorder" "HOL-Library.Word"
begin

section \<open>JSON text as the Go library encoding/json reads and writes it\<close>

text \<open>
  The functions of \<^verbatim>\<open>environments/osqueryconf.go\<close> are thin wrappers around
  \<^verbatim>\<open>json.Unmarshal\<close> and \<^verbatim>\<open>json.MarshalIndent\<close>. Their behaviour is the behaviour
  of these two library calls on the types declared in the file, so the library is
  modelled first: a lexer and a scanner state machine for reading, an escaper and the
  indenter for writing. Strings are byte strings, as in Go.

  Boundaries of the model:
  \<^item> a number read into an \<^verbatim>\<open>interface{}\<close> becomes a float64 in Go; the model keeps
    the integers of magnitude below \<open>2 ^ 53\<close>, which float64 holds exactly and
    prints as plain digits, and answers \<open>OutsideModel\<close> for every other literal;
  \<^item> \<^verbatim>\<open>int\<close> has 64 bits;
  \<^item> the encoder writes backspace and form feed as \<^verbatim>\<open>\u0008\<close> and \<^verbatim>\<open>\u000c\<close>, as the
    library did before Go 1.22 (later versions write the two-character escapes; the
    decoder reads both forms).
\<close>

subsection \<open>Characters\<close>

definition dq :: char where "dq = CHR 0x22"
definition bsl :: char where "bsl = CHR 0x5C"
definition nl :: char where "nl = CHR 0x0A"
definition cr :: char where "cr = CHR 0x0D"
definition tab :: char where "tab = CHR 0x09"

definition byte :: "char \<Rightarrow> nat" where
  "byte c = of_char c"

definition isSpace :: "char \<Rightarrow> bool" where
  "isSpace c = (c = CHR '' '' \<or> c = tab \<or> c = cr \<or> c = nl)"

definition is_digit :: "char \<Rightarrow> bool" where
  "is_digit c = (48 \<le> byte c \<and> byte c \<le> 57)"

definition is_lower :: "char \<Rightarrow> bool" where
  "is_lower c = (97 \<le> byte c \<and> byte c \<le> 122)"

definition is_numchar :: "char \<Rightarrow> bool" where
  "is_numchar c = (is_digit c \<or> c = CHR ''-'' \<or> c = CHR ''+'' \<or> c = CHR ''.''
      \<or> c = CHR ''e'' \<or> c = CHR ''E'')"

subsection \<open>Decimal numbers\<close>

definition digit_char :: "nat \<Rightarrow> char" where
  "digit_char d = char_of (48 + d)"

definition digit_val :: "char \<Rightarrow> nat" where
  "digit_val c = byte c - 48"

fun show_nat :: "nat \<Rightarrow> string" where
  "show_nat n = (if n < 10 then [digit_char n]
                 else show_nat (n div 10) @ [digit_char (n mod 10)])"

declare show_nat.simps [simp del]

definition read_nat :: "string \<Rightarrow> nat" where
  "read_nat ds = foldl (\<lambda>n c. 10 * n + digit_val c) 0 ds"

text \<open>\<^verbatim>\<open>strconv.AppendInt(b, n, 10)\<close>.\<close>

definition show_int :: "int \<Rightarrow> string" where
  "show_int n = (if n < 0 then CHR ''-'' # show_nat (nat (- n)) else show_nat (nat n))"

text \<open>The part of a number literal after the integer digits: fraction and exponent.\<close>

definition exp_part :: "string \<Rightarrow> bool" where
  "exp_part cs = (case cs of
       [] \<Rightarrow> True
     | c # r \<Rightarrow> (c = CHR ''e'' \<or> c = CHR ''E'') \<and>
         (case r of
            [] \<Rightarrow> False
          | d # ds \<Rightarrow> if d = CHR ''+'' \<or> d = CHR ''-''
                     then ds \<noteq> [] \<and> list_all is_digit ds
                     else list_all is_digit (d # ds)))"

definition frac_part :: "string \<Rightarrow> bool" where
  "frac_part cs = (case cs of
       [] \<Rightarrow> True
     | c # r \<Rightarrow> if c = CHR ''.''
                then takeWhile is_digit r \<noteq> [] \<and> exp_part (dropWhile is_digit r)
                else exp_part cs)"

definition int_part :: "string \<Rightarrow> bool" where
  "int_part cs = (case cs of
       [] \<Rightarrow> False
     | c # r \<Rightarrow> if c = CHR ''0'' then frac_part r
                else if is_digit c then frac_part (dropWhile is_digit r)
                else False)"

text \<open>The number grammar of the scanner: \<^verbatim>\<open>-? (0 | [1-9][0-9]*) (. [0-9]+)? ([eE] [+-]? [0-9]+)?\<close>.\<close>

definition valid_number :: "string \<Rightarrow> bool" where
  "valid_number cs = (case cs of
       [] \<Rightarrow> False
     | c # r \<Rightarrow> if c = CHR ''-'' then int_part r else int_part cs)"

text \<open>
  A valid number literal that has neither fraction nor exponent, read as an integer:
  what \<^verbatim>\<open>strconv.ParseInt\<close> accepts among the literals of the scanner.
\<close>

definition int_literal :: "string \<Rightarrow> int option" where
  "int_literal cs = (case cs of
       [] \<Rightarrow> None
     | c # r \<Rightarrow>
         if c = CHR ''-''
         then (if r \<noteq> [] \<and> list_all is_digit r \<and> valid_number cs
               then Some (- int (read_nat r)) else None)
         else (if list_all is_digit cs \<and> valid_number cs
               then Some (int (read_nat cs)) else None))"

subsection \<open>Tokens and the lexer\<close>

datatype token =
    LBrace | RBrace | LBrack | RBrack | Comma | Colon
  | TStr string | TNum string | TTrue | TFalse | TNull

definition hexval :: "char \<Rightarrow> nat option" where
  "hexval c = (if is_digit c then Some (byte c - 48)
               else if 97 \<le> byte c \<and> byte c \<le> 102 then Some (byte c - 87)
               else if 65 \<le> byte c \<and> byte c \<le> 70 then Some (byte c - 55)
               else None)"

text \<open>\<^verbatim>\<open>getu4\<close>: the value of \<^verbatim>\<open>\uXXXX\<close> at the head of the text.\<close>

definition getu4 :: "string \<Rightarrow> nat option" where
  "getu4 s = (case s of
       b # u # h1 # h2 # h3 # h4 # r \<Rightarrow>
         if b = bsl \<and> u = CHR ''u'' then
           (case (hexval h1, hexval h2, hexval h3, hexval h4) of
              (Some a, Some b, Some c, Some d) \<Rightarrow> Some (4096 * a + 256 * b + 16 * c + d)
            | _ \<Rightarrow> None)
         else None
     | _ \<Rightarrow> None)"

text \<open>\<^verbatim>\<open>utf8.EncodeRune\<close> for a code point below 0x110000 that is no surrogate.\<close>

definition utf8 :: "nat \<Rightarrow> string" where
  "utf8 v = (if v < 0x80 then [char_of v]
             else if v < 0x800 then [char_of (0xC0 + v div 64), char_of (0x80 + v mod 64)]
             else if v < 0x10000 then
               [char_of (0xE0 + v div 4096), char_of (0x80 + (v div 64) mod 64),
                char_of (0x80 + v mod 64)]
             else
               [char_of (0xF0 + v div 262144), char_of (0x80 + (v div 4096) mod 64),
                char_of (0x80 + (v div 64) mod 64), char_of (0x80 + v mod 64)])"

definition is_surrogate :: "nat \<Rightarrow> bool" where
  "is_surrogate v = (0xD800 \<le> v \<and> v < 0xE000)"

text \<open>
  The rune that \<^verbatim>\<open>unquote\<close> writes for \<^verbatim>\<open>\uXXXX\<close> with value \<open>v\<close>, where \<open>next\<close>
  is \<^verbatim>\<open>getu4\<close> of the text that follows, and whether that following escape is consumed.
\<close>

definition unquote_rune :: "nat \<Rightarrow> nat option \<Rightarrow> nat \<times> bool" where
  "unquote_rune v next =
     (if is_surrogate v then
        (case next of
           Some w \<Rightarrow> if v < 0xDC00 \<and> 0xDC00 \<le> w \<and> w < 0xE000
                     then (0x10000 + (v - 0xD800) * 1024 + (w - 0xDC00), True)
                     else (0xFFFD, False)
         | None \<Rightarrow> (0xFFFD, False))
      else (v, False))"

text \<open>
  \<^verbatim>\<open>utf8.DecodeRune\<close>: the number of bytes of the well-formed UTF-8 encoding at the head of
  a text, \<open>0\<close> when there is none there (the library then reads one byte as U+FFFD).
  \<open>conts lo hi k r\<close>: the text \<open>r\<close> starts with a byte between \<open>lo\<close> and \<open>hi\<close> and \<open>k\<close>
  continuation bytes.
\<close>

definition in_range :: "char \<Rightarrow> nat \<Rightarrow> nat \<Rightarrow> bool" where
  "in_range c lo hi = (lo \<le> byte c \<and> byte c \<le> hi)"

definition conts :: "nat \<Rightarrow> nat \<Rightarrow> nat \<Rightarrow> string \<Rightarrow> bool" where
  "conts lo hi k r =
     (case r of
        [] \<Rightarrow> False
      | b # r' \<Rightarrow> in_range b lo hi \<and> k \<le> length r' \<and>
                  list_all (\<lambda>c. in_range c 0x80 0xBF) (take k r'))"

text \<open>The lead bytes of the encodings of two, three and four bytes: the range of the
  second byte and the number of continuation bytes after it.\<close>

definition acceptRange :: "char \<Rightarrow> (nat \<times> nat \<times> nat) option" where
  "acceptRange a =
     (if in_range a 0xC2 0xDF then Some (0x80, 0xBF, 0)
      else if byte a = 0xE0 then Some (0xA0, 0xBF, 1)
      else if byte a = 0xED then Some (0x80, 0x9F, 1)
      else if in_range a 0xE1 0xEF then Some (0x80, 0xBF, 1)
      else if byte a = 0xF0 then Some (0x90, 0xBF, 2)
      else if in_range a 0xF1 0xF3 then Some (0x80, 0xBF, 2)
      else if byte a = 0xF4 then Some (0x80, 0x8F, 2)
      else None)"

definition rune_len :: "string \<Rightarrow> nat" where
  "rune_len s =
     (case s of
        [] \<Rightarrow> 0
      | a # r \<Rightarrow>
          if byte a < 0x80 then 1
          else (case acceptRange a of
                  None \<Rightarrow> 0
                | Some (lo, hi, k) \<Rightarrow> if conts lo hi k r then k + 2 else 0))"

text \<open>\<^verbatim>\<open>utf8.Valid\<close>.\<close>

fun valid_utf8 :: "string \<Rightarrow> bool" where
  "valid_utf8 [] = True"
| "valid_utf8 (c # cs) =
     (rune_len (c # cs) \<noteq> 0 \<and> valid_utf8 (drop (rune_len (c # cs) - 1) cs))"

text \<open>
  One escape sequence of \<^verbatim>\<open>unquote\<close>, given the text after the backslash: the bytes it
  stands for, and how many characters after the backslash belong to it.
\<close>

definition unescape :: "string \<Rightarrow> (string \<times> nat) option" where
  "unescape cs =
     (case cs of
        [] \<Rightarrow> None
      | e # es \<Rightarrow>
          if e = dq \<or> e = bsl \<or> e = CHR ''/'' then Some ([e], 1)
          else if e = CHR ''b'' then Some ([CHR 0x08], 1)
          else if e = CHR ''f'' then Some ([CHR 0x0C], 1)
          else if e = CHR ''n'' then Some ([nl], 1)
          else if e = CHR ''r'' then Some ([cr], 1)
          else if e = CHR ''t'' then Some ([tab], 1)
          else if e = CHR ''u'' then
            (case getu4 (bsl # cs) of
               None \<Rightarrow> None
             | Some v \<Rightarrow>
                 (case unquote_rune v (getu4 (drop 4 es)) of
                    (r, both) \<Rightarrow> Some (utf8 r, if both then 11 else 5)))
          else None)"

definition emit :: "string \<Rightarrow> (string \<times> string) option \<Rightarrow> (string \<times> string) option" where
  "emit x r = (case r of None \<Rightarrow> None | Some (s, rest) \<Rightarrow> Some (x @ s, rest))"

text \<open>
  The body of a string literal, after its opening quote: the decoded bytes and the text
  after the closing quote. Control characters and unknown escapes are syntax errors; a
  byte from 0x80 on that starts no well-formed UTF-8 encoding is read as U+FFFD.
\<close>

fun lex_str :: "string \<Rightarrow> (string \<times> string) option" where
  "lex_str [] = None"
| "lex_str (c # cs) =
     (if c = dq then Some ([], cs)
      else if c = bsl then
        (case unescape cs of
           None \<Rightarrow> None
         | Some (x, k) \<Rightarrow> emit x (lex_str (drop k cs)))
      else if byte c < 32 then None
      else if byte c < 0x80 then emit [c] (lex_str cs)
      else if rune_len (c # cs) = 0 then emit (utf8 0xFFFD) (lex_str cs)
      else emit (take (rune_len (c # cs)) (c # cs)) (lex_str (drop (rune_len (c # cs) - 1) cs)))"

definition push :: "token \<Rightarrow> token list option \<Rightarrow> token list option" where
  "push t r = (case r of None \<Rightarrow> None | Some ts \<Rightarrow> Some (t # ts))"

text \<open>
  The lexer. White space between tokens is skipped; a run of number characters has to be
  one number literal and a run of lower-case letters one of \<^verbatim>\<open>true\<close>, \<^verbatim>\<open>false\<close>,
  \<^verbatim>\<open>null\<close>, because the scanner accepts only white space or punctuation after a value.
\<close>

function lex :: "string \<Rightarrow> token list option" where
  "lex [] = Some []"
| "lex (c # cs) =
     (if isSpace c then lex cs
      else if c = CHR ''{'' then push LBrace (lex cs)
      else if c = CHR ''}'' then push RBrace (lex cs)
      else if c = CHR ''['' then push LBrack (lex cs)
      else if c = CHR '']'' then push RBrack (lex cs)
      else if c = CHR '','' then push Comma (lex cs)
      else if c = CHR '':'' then push Colon (lex cs)
      else if c = dq then
        (case lex_str cs of
           None \<Rightarrow> None
         | Some (s, r) \<Rightarrow> push (TStr s) (lex r))
      else if is_digit c \<or> c = CHR ''-'' then
        (if valid_number (c # takeWhile is_numchar cs)
         then push (TNum (c # takeWhile is_numchar cs)) (lex (dropWhile is_numchar cs))
         else None)
      else if is_lower c then
        (if c # takeWhile is_lower cs = ''true''
         then push TTrue (lex (dropWhile is_lower cs))
         else if c # takeWhile is_lower cs = ''false''
         then push TFalse (lex (dropWhile is_lower cs))
         else if c # takeWhile is_lower cs = ''null''
         then push TNull (lex (dropWhile is_lower cs))
         else None)
      else None)"
  by pat_completeness auto

lemma emit_Some:
  "emit x r = Some (s, rest) \<Longrightarrow> \<exists>s'. r = Some (s', rest)"
  by (cases r) (auto simp: emit_def)

lemma lex_str_length:
  "lex_str cs = Some (s, r) \<Longrightarrow> length r < length cs"
proof (induction "length cs" arbitrary: cs s r rule: less_induct)
  case less
  then obtain c cs' where cs: "cs = c # cs'" by (cases cs) auto
  have IH: "length r < Suc (length cs')"
    if "lex_str (drop k cs') = Some (s', r)" for k s'
  proof -
    have "length (drop k cs') < length cs" using cs by simp
    from less.hyps[OF this that] show ?thesis by simp
  qed
  have IH0: "length r < Suc (length cs')" if "lex_str cs' = Some (s', r)" for s'
    using IH[of 0 s'] that by simp
  from less.prems cs show ?case
    by (auto split: if_splits option.splits prod.splits dest!: emit_Some dest: IH IH0)
qed

termination lex
proof (relation "measure length", goal_cases)
  case 1
  show ?case by simp
next
  case (9 c cs x2 s r)
  then show ?case using lex_str_length[of cs s r] by simp
qed (auto intro: le_imp_less_Suc length_dropWhile_le)

subsection \<open>The scanner: from tokens to a JSON value\<close>

datatype json =
    JNull | JBool bool | JNum string | JStr string
  | JArr "json list" | JObj "(string \<times> json) list"

text \<open>
  The parse stack of the scanner. A frame holds what has been read of an open array or
  object, newest first; \<open>FKey\<close> is an object whose next member's key has been read.
\<close>

datatype frame =
    FArr "json list"
  | FObj "(string \<times> json) list"
  | FKey "(string \<times> json) list" string

datatype pstate =
    BeginValue "frame list"
  | BeginValueOrEmpty "frame list"
  | BeginStringOrEmpty "frame list"
  | BeginString "frame list"
  | EndKey "frame list"
  | EndValue "frame list"
  | EndTop json

text \<open>\<^verbatim>\<open>maxNestingDepth\<close> of the scanner.\<close>

definition maxNestingDepth :: nat where
  "maxNestingDepth = 10000"

text \<open>A value is complete: it goes into the innermost open container, or it is the result.\<close>

fun complete :: "json \<Rightarrow> frame list \<Rightarrow> pstate option" where
  "complete v [] = Some (EndTop v)"
| "complete v (FArr acc # st) = Some (EndValue (FArr (v # acc) # st))"
| "complete v (FKey acc k # st) = Some (EndValue (FObj ((k, v) # acc) # st))"
| "complete v (FObj acc # st) = None"

text \<open>\<^verbatim>\<open>pushParseState\<close>: opening a container beyond the nesting limit is an error.\<close>

definition pushParseState :: "frame \<Rightarrow> frame list \<Rightarrow> (frame list \<Rightarrow> pstate) \<Rightarrow> pstate option" where
  "pushParseState f st next =
     (if length (f # st) \<le> maxNestingDepth then Some (next (f # st)) else None)"

fun stateBeginValue :: "frame list \<Rightarrow> token \<Rightarrow> pstate option" where
  "stateBeginValue st LBrace = pushParseState (FObj []) st BeginStringOrEmpty"
| "stateBeginValue st LBrack = pushParseState (FArr []) st BeginValueOrEmpty"
| "stateBeginValue st (TStr s) = complete (JStr s) st"
| "stateBeginValue st (TNum n) = complete (JNum n) st"
| "stateBeginValue st TTrue = complete (JBool True) st"
| "stateBeginValue st TFalse = complete (JBool False) st"
| "stateBeginValue st TNull = complete JNull st"
| "stateBeginValue st _ = None"

fun stateBeginString :: "frame list \<Rightarrow> token \<Rightarrow> pstate option" where
  "stateBeginString (FObj acc # st) (TStr k) = Some (EndKey (FKey acc k # st))"
| "stateBeginString _ _ = None"

fun stateEndValue :: "frame list \<Rightarrow> token \<Rightarrow> pstate option" where
  "stateEndValue (FArr acc # st) Comma = Some (BeginValue (FArr acc # st))"
| "stateEndValue (FArr acc # st) RBrack = complete (JArr (rev acc)) st"
| "stateEndValue (FObj acc # st) Comma = Some (BeginString (FObj acc # st))"
| "stateEndValue (FObj acc # st) RBrace = complete (JObj (rev acc)) st"
| "stateEndValue _ _ = None"

fun step :: "pstate \<Rightarrow> token \<Rightarrow> pstate option" where
  "step (BeginValue st) t = stateBeginValue st t"
| "step (BeginValueOrEmpty st) t =
     (if t = RBrack then stateEndValue st t else stateBeginValue st t)"
| "step (BeginStringOrEmpty st) t =
     (if t = RBrace then stateEndValue st t else stateBeginString st t)"
| "step (BeginString st) t = stateBeginString st t"
| "step (EndKey st) t = (if t = Colon then Some (BeginValue st) else None)"
| "step (EndValue st) t = stateEndValue st t"
| "step (EndTop v) t = None"

fun scan :: "pstate \<Rightarrow> token list \<Rightarrow> pstate option" where
  "scan s [] = Some s"
| "scan s (t # ts) = (case step s t of None \<Rightarrow> None | Some s' \<Rightarrow> scan s' ts)"

text \<open>The text is one JSON value, with white space around it at most.\<close>

definition json_of_text :: "string \<Rightarrow> json option" where
  "json_of_text raw =
     (case lex raw of
        None \<Rightarrow> None
      | Some ts \<Rightarrow> (case scan (BeginValue []) ts of Some (EndTop v) \<Rightarrow> Some v | _ \<Rightarrow> None))"

subsection \<open>Writing: escaping, tokens of a value, indentation\<close>

definition hexdigit :: "nat \<Rightarrow> char" where
  "hexdigit d = (if d < 10 then char_of (48 + d) else char_of (87 + d))"

text \<open>
  One byte of a string as the encoder writes it with HTML escaping on, which is the
  setting of \<^verbatim>\<open>json.Marshal\<close>: quote and backslash get a backslash, newline, carriage
  return and tab their short escapes, the other control characters and \<^verbatim>\<open><\<close>,
  \<^verbatim>\<open>>\<close>, \<^verbatim>\<open>&\<close> the form \<^verbatim>\<open>\u00XX\<close>.
\<close>

definition escape_byte :: "char \<Rightarrow> string" where
  "escape_byte c =
     (if c = dq \<or> c = bsl then [bsl, c]
      else if c = nl then [bsl, CHR ''n'']
      else if c = cr then [bsl, CHR ''r'']
      else if c = tab then [bsl, CHR ''t'']
      else if byte c < 32 \<or> c = CHR ''<'' \<or> c = CHR ''>'' \<or> c = CHR ''&''
      then [bsl, CHR ''u'', CHR ''0'', CHR ''0'', hexdigit (byte c div 16), hexdigit (byte c mod 16)]
      else [c])"

text \<open>
  A string as the encoder writes it between the quotes. From 0x80 on, a byte that starts
  no well-formed UTF-8 encoding is written as the escape of U+FFFD, the code points U+2028 and U+2029
  are written as escapes, and every other encoding is copied.
\<close>

fun escape :: "string \<Rightarrow> string" where
  "escape [] = []"
| "escape (c # cs) =
     (if byte c < 0x80 then escape_byte c @ escape cs
      else if rune_len (c # cs) = 0 then bsl # ''ufffd'' @ escape cs
      else if take 3 (c # cs) = [CHR 0xE2, CHR 0x80, CHR 0xA8]
      then bsl # ''u2028'' @ escape (drop 2 cs)
      else if take 3 (c # cs) = [CHR 0xE2, CHR 0x80, CHR 0xA9]
      then bsl # ''u2029'' @ escape (drop 2 cs)
      else take (rune_len (c # cs)) (c # cs) @ escape (drop (rune_len (c # cs) - 1) cs))"

fun tok_text :: "token \<Rightarrow> string" where
  "tok_text LBrace = ''{''"
| "tok_text RBrace = ''}''"
| "tok_text LBrack = ''[''"
| "tok_text RBrack = '']''"
| "tok_text Comma = '',''"
| "tok_text Colon = '':''"
| "tok_text (TStr s) = dq # escape s @ [dq]"
| "tok_text (TNum l) = l"
| "tok_text TTrue = ''true''"
| "tok_text TFalse = ''false''"
| "tok_text TNull = ''null''"

text \<open>The tokens of the compact text that \<^verbatim>\<open>json.Marshal\<close> writes for a value.\<close>

fun toks :: "json \<Rightarrow> token list"
  and toks_elems :: "json list \<Rightarrow> token list"
  and toks_members :: "(string \<times> json) list \<Rightarrow> token list"
where
  "toks JNull = [TNull]"
| "toks (JBool b) = [if b then TTrue else TFalse]"
| "toks (JNum l) = [TNum l]"
| "toks (JStr s) = [TStr s]"
| "toks (JArr xs) = LBrack # toks_elems xs @ [RBrack]"
| "toks (JObj ms) = LBrace # toks_members ms @ [RBrace]"
| "toks_elems [] = []"
| "toks_elems (x # xs) = toks x @ (if xs = [] then [] else Comma # toks_elems xs)"
| "toks_members [] = []"
| "toks_members ((k, v) # ms) =
     TStr k # Colon # toks v @ (if ms = [] then [] else Comma # toks_members ms)"

text \<open>\<^verbatim>\<open>appendNewline\<close> with the empty prefix.\<close>

definition appendNewline :: "string \<Rightarrow> nat \<Rightarrow> string" where
  "appendNewline indent depth = nl # concat (replicate depth indent)"

text \<open>
  \<^verbatim>\<open>appendIndent\<close>, the loop of \<^verbatim>\<open>json.Indent\<close>, over the tokens of the compact text:
  a line break after every comma and after an opening bracket that is not closed at once,
  a space after every colon. The indentation string is repeated \<open>depth\<close> times after
  each line break, whatever it is.
\<close>

fun appendIndent :: "string \<Rightarrow> bool \<Rightarrow> nat \<Rightarrow> token list \<Rightarrow> string" where
  "appendIndent indent needIndent depth [] = []"
| "appendIndent indent needIndent depth (t # ts) =
     (if needIndent \<and> t \<noteq> RBrace \<and> t \<noteq> RBrack then
        appendNewline indent (depth + 1) @
        (if t = LBrace \<or> t = LBrack then tok_text t @ appendIndent indent True (depth + 1) ts
         else if t = Comma then
           tok_text t @ appendNewline indent (depth + 1) @ appendIndent indent False (depth + 1) ts
         else if t = Colon then tok_text t @ '' '' @ appendIndent indent False (depth + 1) ts
         else tok_text t @ appendIndent indent False (depth + 1) ts)
      else if t = LBrace \<or> t = LBrack then tok_text t @ appendIndent indent True depth ts
      else if t = Comma then
        tok_text t @ appendNewline indent depth @ appendIndent indent needIndent depth ts
      else if t = Colon then tok_text t @ '' '' @ appendIndent indent needIndent depth ts
      else if t = RBrace \<or> t = RBrack then
        (if needIndent then tok_text t @ appendIndent indent False depth ts
         else appendNewline indent (depth - 1) @ tok_text t @ appendIndent indent False (depth - 1) ts)
      else tok_text t @ appendIndent indent needIndent depth ts)"

subsection \<open>Errors\<close>

text \<open>
  \<open>Errorf p e\<close> is \<^verbatim>\<open>fmt.Errorf(p + "%v", e)\<close>. \<open>OutsideModel\<close> is no Go error: it
  marks a text whose numbers this model does not follow.
\<close>

datatype error =
    SyntaxError
  | UnmarshalTypeError
  | OutsideModel
  | StoreError
  | Errorf string error

text \<open>\<^verbatim>\<open>json.MarshalIndent(v, "", indent)\<close>: \<^verbatim>\<open>Marshal\<close>, then \<^verbatim>\<open>Indent\<close>, whose scanner
  fails beyond the nesting limit.\<close>

definition MarshalIndent :: "json \<Rightarrow> string \<Rightarrow> error + string" where
  "MarshalIndent v indent =
     (case scan (BeginValue []) (toks v) of
        Some (EndTop _) \<Rightarrow> Inr (appendIndent indent False 0 (toks v))
      | _ \<Rightarrow> Inl SyntaxError)"

text \<open>\<^verbatim>\<open>json.Unmarshal\<close> first checks that the whole text is valid JSON.\<close>

definition checkValid :: "string \<Rightarrow> error + json" where
  "checkValid raw = (case json_of_text raw of None \<Rightarrow> Inl SyntaxError | Some j \<Rightarrow> Inr j)"

section \<open>The configuration types of osqueryconf.go\<close>

subsection \<open>Go values\<close>

text \<open>
  A value of type \<^verbatim>\<open>interface{}\<close> as \<^verbatim>\<open>json.Unmarshal\<close> builds it: nil, bool, float64
  (see the boundaries above), string, \<^verbatim>\<open>[]interface{}\<close>, \<^verbatim>\<open>map[string]interface{}\<close>.
  A Go map is represented by its entries in ascending key order, the order in which
  \<^verbatim>\<open>json.Marshal\<close> writes them; a map variable is \<open>None\<close> when it is nil.
\<close>

datatype iface =
    INil | IBool bool | INum int | IStr string
  | IArr "iface list" | IObj "(string \<times> iface) list"

text \<open>\<^verbatim>\<open>m[k] = v\<close> on the sorted entries of a map.\<close>

fun map_set :: "string \<Rightarrow> 'v \<Rightarrow> (string \<times> 'v) list \<Rightarrow> (string \<times> 'v) list" where
  "map_set k v [] = [(k, v)]"
| "map_set k v ((k', v') # m) =
     (if k = k' then (k, v) # m
      else if k < k' then (k, v) # (k', v') # m
      else (k', v') # map_set k v m)"

type_synonym OptionsConf = "(string \<times> iface) list option"
type_synonym PacksConf = "(string \<times> iface) list option"
type_synonym ATCConf = "(string \<times> iface) list option"

record ScheduleQuery =
  Query :: string
  Interval :: "64 word"
  Removed :: bool
  Snapshot :: bool
  Platform :: string
  Version :: string
  Shard :: "64 word"
  Denylist :: bool

type_synonym ScheduleConf = "(string \<times> ScheduleQuery) list option"

record DecoratorConf =
  Load :: "string list"
  Always :: "string list"
  Interval_decorators :: iface

record OsqueryConf =
  Options :: OptionsConf
  Schedule :: ScheduleConf
  Packs :: PacksConf
  Decorators :: DecoratorConf
  ATC :: ATCConf

text \<open>The zero values of the two struct types.\<close>

definition zero_ScheduleQuery :: ScheduleQuery where
  "zero_ScheduleQuery = \<lparr>Query = [], Interval = 0, Removed = False, Snapshot = False,
     Platform = [], Version = [], Shard = 0, Denylist = False\<rparr>"

definition zero_DecoratorConf :: DecoratorConf where
  "zero_DecoratorConf = \<lparr>Load = [], Always = [], Interval_decorators = INil\<rparr>"

definition zero_OsqueryConf :: OsqueryConf where
  "zero_OsqueryConf = \<lparr>Options = None, Schedule = None, Packs = None,
     Decorators = zero_DecoratorConf, ATC = None\<rparr>"

subsection \<open>Unmarshal: from a JSON value into a Go value\<close>

definition bindE :: "error + 'a \<Rightarrow> ('a \<Rightarrow> error + 'b) \<Rightarrow> error + 'b" where
  "bindE r f = (case r of Inl e \<Rightarrow> Inl e | Inr x \<Rightarrow> f x)"

fun foldE :: "('a \<Rightarrow> 'b \<Rightarrow> error + 'a) \<Rightarrow> 'a \<Rightarrow> 'b list \<Rightarrow> error + 'a" where
  "foldE f a [] = Inr a"
| "foldE f a (x # xs) = bindE (f a x) (\<lambda>a'. foldE f a' xs)"

text \<open>The float64 of a number literal, where the model follows it.\<close>

definition float_of_literal :: "string \<Rightarrow> int option" where
  "float_of_literal l =
     (case int_literal l of
        None \<Rightarrow> None
      | Some n \<Rightarrow> if l \<noteq> ''-0'' \<and> - (2 ^ 53) < n \<and> n < 2 ^ 53 then Some n else None)"

text \<open>
  \<^verbatim>\<open>valueInterface\<close>, \<^verbatim>\<open>arrayInterface\<close>, \<^verbatim>\<open>objectInterface\<close>: any JSON value into an
  \<^verbatim>\<open>interface{}\<close>. The members of an object are assigned to the map one after the
  other, so the last of several equal keys stays.
\<close>

fun valueInterface :: "json \<Rightarrow> error + iface"
  and arrayInterface :: "json list \<Rightarrow> error + iface list"
  and objectInterface :: "(string \<times> json) list \<Rightarrow> (string \<times> iface) list
        \<Rightarrow> error + (string \<times> iface) list"
where
  "valueInterface JNull = Inr INil"
| "valueInterface (JBool b) = Inr (IBool b)"
| "valueInterface (JStr s) = Inr (IStr s)"
| "valueInterface (JNum l) =
     (case float_of_literal l of None \<Rightarrow> Inl OutsideModel | Some n \<Rightarrow> Inr (INum n))"
| "valueInterface (JArr xs) = bindE (arrayInterface xs) (\<lambda>ys. Inr (IArr ys))"
| "valueInterface (JObj ms) = bindE (objectInterface ms []) (\<lambda>m. Inr (IObj m))"
| "arrayInterface [] = Inr []"
| "arrayInterface (x # xs) =
     bindE (valueInterface x) (\<lambda>y. bindE (arrayInterface xs) (\<lambda>ys. Inr (y # ys)))"
| "objectInterface [] m = Inr m"
| "objectInterface ((k, x) # ms) m =
     bindE (valueInterface x) (\<lambda>y. objectInterface ms (map_set k y m))"

text \<open>
  Into a \<^verbatim>\<open>map[string]interface{}\<close> (options, packs, ATC): \<^verbatim>\<open>null\<close> makes the map nil,
  an object is stored member by member into the map (a nil map is made first), anything
  else is a type error.
\<close>

definition into_map :: "(string \<times> iface) list option \<Rightarrow> json
    \<Rightarrow> error + (string \<times> iface) list option" where
  "into_map old j =
     (case j of
        JNull \<Rightarrow> Inr None
      | JObj ms \<Rightarrow>
          bindE (objectInterface ms (case old of None \<Rightarrow> [] | Some m \<Rightarrow> m)) (\<lambda>m. Inr (Some m))
      | _ \<Rightarrow> Inl UnmarshalTypeError)"

text \<open>Into a string, an int and a bool: \<^verbatim>\<open>null\<close> leaves the variable as it is.\<close>

definition into_string :: "string \<Rightarrow> json \<Rightarrow> error + string" where
  "into_string old j =
     (case j of JStr s \<Rightarrow> Inr s | JNull \<Rightarrow> Inr old | _ \<Rightarrow> Inl UnmarshalTypeError)"

definition into_int :: "64 word \<Rightarrow> json \<Rightarrow> error + 64 word" where
  "into_int old j =
     (case j of
        JNum l \<Rightarrow>
          (case int_literal l of
             None \<Rightarrow> Inl UnmarshalTypeError
           | Some n \<Rightarrow> if - (2 ^ 63) \<le> n \<and> n < 2 ^ 63 then Inr (word_of_int n)
                       else Inl UnmarshalTypeError)
      | JNull \<Rightarrow> Inr old
      | _ \<Rightarrow> Inl UnmarshalTypeError)"

definition into_bool :: "bool \<Rightarrow> json \<Rightarrow> error + bool" where
  "into_bool old j =
     (case j of JBool b \<Rightarrow> Inr b | JNull \<Rightarrow> Inr old | _ \<Rightarrow> Inl UnmarshalTypeError)"

text \<open>
  Into a \<^verbatim>\<open>[]string\<close>: the elements are decoded in place, so a \<^verbatim>\<open>null\<close> element keeps
  what the slice held at that index, the empty string in a fresh slice.
\<close>

fun into_elems :: "string list \<Rightarrow> json list \<Rightarrow> error + string list" where
  "into_elems old [] = Inr []"
| "into_elems old (j # js) =
     bindE (into_string (case old of [] \<Rightarrow> [] | s # _ \<Rightarrow> s) j)
       (\<lambda>s. bindE (into_elems (tl old) js) (\<lambda>ss. Inr (s # ss)))"

definition into_strings :: "string list \<Rightarrow> json \<Rightarrow> error + string list" where
  "into_strings old j =
     (case j of
        JArr js \<Rightarrow> into_elems old js
      | JNull \<Rightarrow> Inr []
      | _ \<Rightarrow> Inl UnmarshalTypeError)"

text \<open>Into an \<^verbatim>\<open>interface{}\<close> field: the value is replaced.\<close>

definition into_iface :: "iface \<Rightarrow> json \<Rightarrow> error + iface" where
  "into_iface old j = valueInterface j"

text \<open>
  The field that an object key names: the field whose JSON name is the key, otherwise the
  first one whose name equals it under Unicode case folding. All names here are ASCII; the
  only characters outside ASCII that fold to an ASCII letter are U+212A (to k) and
  U+017F (to s).
\<close>

fun foldName :: "string \<Rightarrow> string" where
  "foldName [] = []"
| "foldName (c # cs) =
     (if c = CHR 0xE2 \<and> take 2 cs = [CHR 0x84, CHR 0xAA] then CHR ''K'' # foldName (drop 2 cs)
      else if c = CHR 0xC5 \<and> take 1 cs = [CHR 0xBF] then CHR ''S'' # foldName (drop 1 cs)
      else if is_lower c then char_of (byte c - 32) # foldName cs
      else c # foldName cs)"

definition fieldOf :: "string list \<Rightarrow> string \<Rightarrow> string option" where
  "fieldOf names key =
     (if key \<in> set names then Some key
      else find (\<lambda>n. foldName n = foldName key) names)"

definition ScheduleQuery_fields :: "string list" where
  "ScheduleQuery_fields = [''query'', ''interval'', ''removed'', ''snapshot'', ''platform'',
     ''version'', ''shard'', ''denylist'']"

definition member_ScheduleQuery :: "ScheduleQuery \<Rightarrow> string \<times> json \<Rightarrow> error + ScheduleQuery" where
  "member_ScheduleQuery q m =
     (case fieldOf ScheduleQuery_fields (fst m) of
        None \<Rightarrow> Inr q
      | Some f \<Rightarrow>
          if f = ''query'' then bindE (into_string (Query q) (snd m)) (\<lambda>x. Inr (q\<lparr>Query := x\<rparr>))
          else if f = ''interval'' then bindE (into_int (Interval q) (snd m)) (\<lambda>x. Inr (q\<lparr>Interval := x\<rparr>))
          else if f = ''removed'' then bindE (into_bool (Removed q) (snd m)) (\<lambda>x. Inr (q\<lparr>Removed := x\<rparr>))
          else if f = ''snapshot'' then bindE (into_bool (Snapshot q) (snd m)) (\<lambda>x. Inr (q\<lparr>Snapshot := x\<rparr>))
          else if f = ''platform'' then bindE (into_string (Platform q) (snd m)) (\<lambda>x. Inr (q\<lparr>Platform := x\<rparr>))
          else if f = ''version'' then bindE (into_string (Version q) (snd m)) (\<lambda>x. Inr (q\<lparr>Version := x\<rparr>))
          else if f = ''shard'' then bindE (into_int (Shard q) (snd m)) (\<lambda>x. Inr (q\<lparr>Shard := x\<rparr>))
          else bindE (into_bool (Denylist q) (snd m)) (\<lambda>x. Inr (q\<lparr>Denylist := x\<rparr>)))"

text \<open>Into a struct: \<^verbatim>\<open>null\<close> leaves it, an object sets the fields its keys name and
  ignores the other keys, anything else is a type error.\<close>

definition into_ScheduleQuery :: "ScheduleQuery \<Rightarrow> json \<Rightarrow> error + ScheduleQuery" where
  "into_ScheduleQuery old j =
     (case j of
        JNull \<Rightarrow> Inr old
      | JObj ms \<Rightarrow> foldE member_ScheduleQuery old ms
      | _ \<Rightarrow> Inl UnmarshalTypeError)"

text \<open>Into a \<^verbatim>\<open>map[string]ScheduleQuery\<close>: every member is decoded into a fresh zero
  entry, which is then assigned to the map.\<close>

definition member_ScheduleConf :: "(string \<times> ScheduleQuery) list \<Rightarrow> string \<times> json
    \<Rightarrow> error + (string \<times> ScheduleQuery) list" where
  "member_ScheduleConf m kv =
     bindE (into_ScheduleQuery zero_ScheduleQuery (snd kv)) (\<lambda>q. Inr (map_set (fst kv) q m))"

definition into_ScheduleConf :: "ScheduleConf \<Rightarrow> json \<Rightarrow> error + ScheduleConf" where
  "into_ScheduleConf old j =
     (case j of
        JNull \<Rightarrow> Inr None
      | JObj ms \<Rightarrow>
          bindE (foldE member_ScheduleConf (case old of None \<Rightarrow> [] | Some m \<Rightarrow> m) ms)
            (\<lambda>m. Inr (Some m))
      | _ \<Rightarrow> Inl UnmarshalTypeError)"

definition DecoratorConf_fields :: "string list" where
  "DecoratorConf_fields = [''load'', ''always'', ''interval'']"

definition member_DecoratorConf :: "DecoratorConf \<Rightarrow> string \<times> json \<Rightarrow> error + DecoratorConf" where
  "member_DecoratorConf d m =
     (case fieldOf DecoratorConf_fields (fst m) of
        None \<Rightarrow> Inr d
      | Some f \<Rightarrow>
          if f = ''load'' then bindE (into_strings (Load d) (snd m)) (\<lambda>x. Inr (d\<lparr>Load := x\<rparr>))
          else if f = ''always'' then bindE (into_strings (Always d) (snd m)) (\<lambda>x. Inr (d\<lparr>Always := x\<rparr>))
          else bindE (into_iface (Interval_decorators d) (snd m))
                 (\<lambda>x. Inr (d\<lparr>Interval_decorators := x\<rparr>)))"

definition into_DecoratorConf :: "DecoratorConf \<Rightarrow> json \<Rightarrow> error + DecoratorConf" where
  "into_DecoratorConf old j =
     (case j of
        JNull \<Rightarrow> Inr old
      | JObj ms \<Rightarrow> foldE member_DecoratorConf old ms
      | _ \<Rightarrow> Inl UnmarshalTypeError)"

definition OsqueryConf_fields :: "string list" where
  "OsqueryConf_fields = [''options'', ''schedule'', ''packs'', ''decorators'',
     ''auto_table_construction'']"

definition member_OsqueryConf :: "OsqueryConf \<Rightarrow> string \<times> json \<Rightarrow> error + OsqueryConf" where
  "member_OsqueryConf c m =
     (case fieldOf OsqueryConf_fields (fst m) of
        None \<Rightarrow> Inr c
      | Some f \<Rightarrow>
          if f = ''options'' then bindE (into_map (Options c) (snd m)) (\<lambda>x. Inr (c\<lparr>Options := x\<rparr>))
          else if f = ''schedule'' then bindE (into_ScheduleConf (Schedule c) (snd m)) (\<lambda>x. Inr (c\<lparr>Schedule := x\<rparr>))
          else if f = ''packs'' then bindE (into_map (Packs c) (snd m)) (\<lambda>x. Inr (c\<lparr>Packs := x\<rparr>))
          else if f = ''decorators'' then bindE (into_DecoratorConf (Decorators c) (snd m)) (\<lambda>x. Inr (c\<lparr>Decorators := x\<rparr>))
          else bindE (into_map (ATC c) (snd m)) (\<lambda>x. Inr (c\<lparr>ATC := x\<rparr>)))"

definition into_OsqueryConf :: "OsqueryConf \<Rightarrow> json \<Rightarrow> error + OsqueryConf" where
  "into_OsqueryConf old j =
     (case j of
        JNull \<Rightarrow> Inr old
      | JObj ms \<Rightarrow> foldE member_OsqueryConf old ms
      | _ \<Rightarrow> Inl UnmarshalTypeError)"

subsection \<open>Marshal: from a Go value to a JSON value\<close>

primrec json_of_iface :: "iface \<Rightarrow> json" where
  "json_of_iface INil = JNull"
| "json_of_iface (IBool b) = JBool b"
| "json_of_iface (INum n) = JNum (show_int n)"
| "json_of_iface (IStr s) = JStr s"
| "json_of_iface (IArr xs) = JArr (map json_of_iface xs)"
| "json_of_iface (IObj ms) = JObj (map (map_prod id json_of_iface) ms)"

text \<open>A nil map is written \<^verbatim>\<open>null\<close>, any other map as an object.\<close>

definition json_of_map :: "(string \<times> iface) list option \<Rightarrow> json" where
  "json_of_map m =
     (case m of None \<Rightarrow> JNull | Some ms \<Rightarrow> JObj (map (map_prod id json_of_iface) ms))"

text \<open>
  \<^verbatim>\<open>ScheduleQuery\<close>: all eight fields carry \<^verbatim>\<open>omitempty\<close>, so a field is written only
  when it is not the empty string, zero or false, in the order of the declaration.
\<close>

definition json_of_ScheduleQuery :: "ScheduleQuery \<Rightarrow> json" where
  "json_of_ScheduleQuery q = JObj (
     (if Query q = [] then [] else [(''query'', JStr (Query q))]) @
     (if Interval q = 0 then [] else [(''interval'', JNum (show_int (sint (Interval q))))]) @
     (if Removed q then [(''removed'', JBool True)] else []) @
     (if Snapshot q then [(''snapshot'', JBool True)] else []) @
     (if Platform q = [] then [] else [(''platform'', JStr (Platform q))]) @
     (if Version q = [] then [] else [(''version'', JStr (Version q))]) @
     (if Shard q = 0 then [] else [(''shard'', JNum (show_int (sint (Shard q))))]) @
     (if Denylist q then [(''denylist'', JBool True)] else []))"

definition json_of_ScheduleConf :: "ScheduleConf \<Rightarrow> json" where
  "json_of_ScheduleConf m =
     (case m of None \<Rightarrow> JNull | Some ms \<Rightarrow> JObj (map (map_prod id json_of_ScheduleQuery) ms))"

text \<open>\<^verbatim>\<open>DecoratorConf\<close>: three fields with \<^verbatim>\<open>omitempty\<close>; an empty slice and a nil
  interface are left out.\<close>

definition json_of_DecoratorConf :: "DecoratorConf \<Rightarrow> json" where
  "json_of_DecoratorConf d = JObj (
     (if Load d = [] then [] else [(''load'', JArr (map JStr (Load d)))]) @
     (if Always d = [] then [] else [(''always'', JArr (map JStr (Always d)))]) @
     (if Interval_decorators d = INil then []
      else [(''interval'', json_of_iface (Interval_decorators d))]))"

text \<open>\<^verbatim>\<open>OsqueryConf\<close>: five fields without \<^verbatim>\<open>omitempty\<close>, in the order of the declaration.\<close>

definition json_of_OsqueryConf :: "OsqueryConf \<Rightarrow> json" where
  "json_of_OsqueryConf c = JObj [
     (''options'', json_of_map (Options c)),
     (''schedule'', json_of_ScheduleConf (Schedule c)),
     (''packs'', json_of_map (Packs c)),
     (''decorators'', json_of_DecoratorConf (Decorators c)),
     (''auto_table_construction'', json_of_map (ATC c))]"

section \<open>The functions of osqueryconf.go\<close>

text \<open>
  \<^verbatim>\<open>GenSerializedConf(structured interface{}, indent bool)\<close>. The argument is given by
  the JSON value that \<^verbatim>\<open>json.Marshal\<close> builds from it by reflection.
\<close>

definition GenSerializedConf :: "json \<Rightarrow> bool \<Rightarrow> error + string" where
  "GenSerializedConf structured indent =
     (let indentStr = (if indent then ''  '' else [])
      in case MarshalIndent structured indentStr of
           Inl err \<Rightarrow> Inl err
         | Inr jsonConf \<Rightarrow> Inr jsonConf)"

text \<open>
  The \<^verbatim>\<open>GenStruct\<close> functions unmarshal into a zero variable and return it with the
  error. Their callers drop the value when there is an error, so the model returns the
  error alone.
\<close>

definition GenStructConf :: "string \<Rightarrow> error + OsqueryConf" where
  "GenStructConf configuration =
     bindE (checkValid configuration) (into_OsqueryConf zero_OsqueryConf)"

definition GenStructOptions :: "string \<Rightarrow> error + OptionsConf" where
  "GenStructOptions configuration = bindE (checkValid configuration) (into_map None)"

definition GenStructSchedule :: "string \<Rightarrow> error + ScheduleConf" where
  "GenStructSchedule configuration = bindE (checkValid configuration) (into_ScheduleConf None)"

definition GenStructPacks :: "string \<Rightarrow> error + PacksConf" where
  "GenStructPacks configuration = bindE (checkValid configuration) (into_map None)"

definition GenStructDecorators :: "string \<Rightarrow> error + DecoratorConf" where
  "GenStructDecorators configuration =
     bindE (checkValid configuration) (into_DecoratorConf zero_DecoratorConf)"

definition GenStructATC :: "string \<Rightarrow> error + ATCConf" where
  "GenStructATC configuration = bindE (checkValid configuration) (into_map None)"

text \<open>
  The five decorator queries are constants of the package that are declared in another
  file; they are a parameter here.
\<close>

record decorator_defaults =
  DecoratorUsers :: string
  DecoratorHostname :: string
  DecoratorLoggedInUser :: string
  DecoratorOsqueryVersionHash :: string
  DecoratorMD5Process :: string

definition empty_cnf :: "decorator_defaults \<Rightarrow> OsqueryConf" where
  "empty_cnf ds = \<lparr>
     Options = Some [],
     Schedule = Some [],
     Packs = Some [],
     Decorators = \<lparr>
       Load = [],
       Always = [DecoratorUsers ds, DecoratorHostname ds, DecoratorLoggedInUser ds,
                 DecoratorOsqueryVersionHash ds, DecoratorMD5Process ds],
       Interval_decorators = INil\<rparr>,
     ATC = Some []\<rparr>"

text \<open>
  \<^verbatim>\<open>GenEmptyConfiguration\<close> has no error result: on an error of
  \<^verbatim>\<open>GenSerializedConf\<close> it returns the empty string.
\<close>

definition GenEmptyConfiguration :: "decorator_defaults \<Rightarrow> bool \<Rightarrow> string" where
  "GenEmptyConfiguration ds indent =
     (case GenSerializedConf (json_of_OsqueryConf (empty_cnf ds)) indent of
        Inl err \<Rightarrow> []
      | Inr str \<Rightarrow> str)"

subsection \<open>The store\<close>

text \<open>
  Modelled from the spec: the type \<^verbatim>\<open>TLSEnvironment\<close>, the methods \<^verbatim>\<open>Get\<close>,
  \<^verbatim>\<open>UpdateOptions\<close>, \<^verbatim>\<open>UpdateSchedule\<close> and the database handle are declared
  outside this file. Section 3 gives an environment five raw-text fragment fields and one
  raw-text composed-configuration field; section 6 gives the store \<^verbatim>\<open>get(envName)\<close> and
  \<^verbatim>\<open>update(envName, fieldsToChange)\<close>, both of which may fail with an opaque error.
  The store is a table of environments by name together with the outcomes of the store
  calls to come (\<open>True\<close>: the call fails); when that list is used up, calls succeed.
\<close>

record TLSEnvironment =
  Options_env :: string
  Schedule_env :: string
  Packs_env :: string
  Decorators_env :: string
  ATC_env :: string
  Configuration_env :: string

record Environment =
  rows :: "(string \<times> TLSEnvironment) list"
  faults :: "bool list"

definition store_call :: "Environment \<Rightarrow> bool \<times> Environment" where
  "store_call db = (case faults db of [] \<Rightarrow> (False, db) | f # fs \<Rightarrow> (f, db\<lparr>faults := fs\<rparr>))"

definition Get :: "string \<Rightarrow> Environment \<Rightarrow> (error + TLSEnvironment) \<times> Environment" where
  "Get name db =
     (case store_call db of
        (True, db') \<Rightarrow> (Inl StoreError, db')
      | (False, db') \<Rightarrow>
          (case map_of (rows db') name of
             None \<Rightarrow> (Inl StoreError, db')
           | Some env \<Rightarrow> (Inr env, db')))"

definition Update :: "string \<Rightarrow> (TLSEnvironment \<Rightarrow> TLSEnvironment) \<Rightarrow> Environment
    \<Rightarrow> error option \<times> Environment" where
  "Update name change db =
     (case store_call db of
        (True, db') \<Rightarrow> (Some StoreError, db')
      | (False, db') \<Rightarrow>
          (None, db'\<lparr>rows := map (\<lambda>(n, env). if n = name then (n, change env) else (n, env))
                                (rows db')\<rparr>))"

definition UpdateOptions :: "string \<Rightarrow> string \<Rightarrow> Environment \<Rightarrow> error option \<times> Environment" where
  "UpdateOptions name options db = Update name (\<lambda>env. env\<lparr>Options_env := options\<rparr>) db"

definition UpdateSchedule :: "string \<Rightarrow> string \<Rightarrow> Environment \<Rightarrow> error option \<times> Environment" where
  "UpdateSchedule name schedule db = Update name (\<lambda>env. env\<lparr>Schedule_env := schedule\<rparr>) db"

subsection \<open>The operations on an environment\<close>

text \<open>
  A Go \<^verbatim>\<open>error\<close> result is an \<open>error option\<close>, \<open>None\<close> for nil. Every function returns
  the store with its result.
\<close>

definition RefreshConfiguration :: "string \<Rightarrow> Environment \<Rightarrow> error option \<times> Environment" where
  "RefreshConfiguration name db =
     (case Get name db of
        (Inl err, db1) \<Rightarrow> (Some (Errorf ''error structuring environment '' err), db1)
      | (Inr env, db1) \<Rightarrow>
     (case GenStructOptions (Options_env env) of
        Inl err \<Rightarrow> (Some (Errorf ''error structuring options '' err), db1)
      | Inr options \<Rightarrow>
     (case GenStructSchedule (Schedule_env env) of
        Inl err \<Rightarrow> (Some (Errorf ''error structuring schedule '' err), db1)
      | Inr schedule \<Rightarrow>
     (case GenStructPacks (Packs_env env) of
        Inl err \<Rightarrow> (Some (Errorf ''error structuring packs '' err), db1)
      | Inr packs \<Rightarrow>
     (case GenStructDecorators (Decorators_env env) of
        Inl err \<Rightarrow> (Some (Errorf ''error structuring decorators '' err), db1)
      | Inr decorators \<Rightarrow>
     (case GenStructATC (ATC_env env) of
        Inl err \<Rightarrow> (Some (Errorf ''error structuring ATC '' err), db1)
      | Inr atc \<Rightarrow>
     (let conf = \<lparr>Options = options, Schedule = schedule, Packs = packs,
                  Decorators = decorators, ATC = atc\<rparr>
      in case GenSerializedConf (json_of_OsqueryConf conf) True of
           Inl err \<Rightarrow> (Some (Errorf ''error serializing configuration '' err), db1)
         | Inr indentedConf \<Rightarrow>
        (case Update name (\<lambda>env. env\<lparr>Configuration_env := indentedConf\<rparr>) db1 of
           (Some err, db2) \<Rightarrow> (Some (Errorf ''Update configuration '' err), db2)
         | (None, db2) \<Rightarrow> (None, db2)))))))))"

definition UpdateConfiguration :: "string \<Rightarrow> OsqueryConf \<Rightarrow> Environment
    \<Rightarrow> error option \<times> Environment" where
  "UpdateConfiguration name cnf db =
     (case GenSerializedConf (json_of_OsqueryConf cnf) True of
        Inl err \<Rightarrow> (Some (Errorf ''error serializing configuration '' err), db)
      | Inr indentedConf \<Rightarrow>
     (case Update name (\<lambda>env. env\<lparr>Configuration_env := indentedConf\<rparr>) db of
        (Some err, db1) \<Rightarrow> (Some (Errorf ''Update configuration '' err), db1)
      | (None, db1) \<Rightarrow> (None, db1)))"

definition UpdateConfigurationParts :: "string \<Rightarrow> OsqueryConf \<Rightarrow> Environment
    \<Rightarrow> error option \<times> Environment" where
  "UpdateConfigurationParts name cnf db =
     (case GenSerializedConf (json_of_map (Options cnf)) True of
        Inl err \<Rightarrow> (Some (Errorf ''error serializing options '' err), db)
      | Inr indentedOptions \<Rightarrow>
     (case GenSerializedConf (json_of_ScheduleConf (Schedule cnf)) True of
        Inl err \<Rightarrow> (Some (Errorf ''error serializing schedule '' err), db)
      | Inr indentedSchedule \<Rightarrow>
     (case GenSerializedConf (json_of_map (Packs cnf)) True of
        Inl err \<Rightarrow> (Some (Errorf ''error serializing packs '' err), db)
      | Inr indentedPacks \<Rightarrow>
     (case GenSerializedConf (json_of_DecoratorConf (Decorators cnf)) True of
        Inl err \<Rightarrow> (Some (Errorf ''error serializing decorators '' err), db)
      | Inr indentedDecorators \<Rightarrow>
     (case GenSerializedConf (json_of_map (ATC cnf)) True of
        Inl err \<Rightarrow> (Some (Errorf ''error serializing ATC '' err), db)
      | Inr indentedATC \<Rightarrow>
     (case Update name (\<lambda>env. env\<lparr>Options_env := indentedOptions,
                                  Schedule_env := indentedSchedule,
                                  Packs_env := indentedPacks,
                                  Decorators_env := indentedDecorators,
                                  ATC_env := indentedATC\<rparr>) db of
        (Some err, db1) \<Rightarrow> (Some (Errorf ''Update parts '' err), db1)
      | (None, db1) \<Rightarrow> (None, db1)))))))"

text \<open>
  The two functions that add an entry assign to the map that \<^verbatim>\<open>json.Unmarshal\<close> left
  in the variable. Assigning to a nil map is a run-time panic in Go, so a call either
  returns its error result or panics.
\<close>

datatype 'a outcome = Returns 'a | Panics string

definition AddOptionsConf :: "string \<Rightarrow> string \<Rightarrow> iface \<Rightarrow> Environment
    \<Rightarrow> error option outcome \<times> Environment" where
  "AddOptionsConf name option v db =
     (case Get name db of
        (Inl err, db1) \<Rightarrow> (Returns (Some (Errorf ''error structuring environment '' err)), db1)
      | (Inr env, db1) \<Rightarrow>
     (case GenStructOptions (Options_env env) of
        Inl err \<Rightarrow> (Returns (Some (Errorf ''error structuring options '' err)), db1)
      | Inr None \<Rightarrow> (Panics ''assignment to entry in nil map'', db1)
      | Inr (Some m) \<Rightarrow>
     (case GenSerializedConf (json_of_map (Some (map_set option v m))) True of
        Inl err \<Rightarrow> (Returns (Some (Errorf ''error serializing options '' err)), db1)
      | Inr indentedOptions \<Rightarrow>
     (case UpdateOptions name indentedOptions db1 of
        (Some err, db2) \<Rightarrow> (Returns (Some (Errorf ''error updating options '' err)), db2)
      | (None, db2) \<Rightarrow>
     (case RefreshConfiguration name db2 of
        (Some err, db3) \<Rightarrow> (Returns (Some (Errorf ''error refreshing configuration '' err)), db3)
      | (None, db3) \<Rightarrow> (Returns None, db3))))))"

definition AddScheduleConfQuery :: "string \<Rightarrow> string \<Rightarrow> ScheduleQuery \<Rightarrow> Environment
    \<Rightarrow> error option outcome \<times> Environment" where
  "AddScheduleConfQuery name qName query db =
     (case Get name db of
        (Inl err, db1) \<Rightarrow> (Returns (Some (Errorf ''error structuring environment '' err)), db1)
      | (Inr env, db1) \<Rightarrow>
     (case GenStructSchedule (Schedule_env env) of
        Inl err \<Rightarrow> (Returns (Some (Errorf ''error structuring schedule '' err)), db1)
      | Inr None \<Rightarrow> (Panics ''assignment to entry in nil map'', db1)
      | Inr (Some m) \<Rightarrow>
     (case GenSerializedConf (json_of_ScheduleConf (Some (map_set qName query m))) True of
        Inl err \<Rightarrow> (Returns (Some (Errorf ''error serializing schedule '' err)), db1)
      | Inr indentedSchedule \<Rightarrow>
     (case UpdateSchedule name indentedSchedule db1 of
        (Some err, db2) \<Rightarrow> (Returns (Some (Errorf ''error updating schedule '' err)), db2)
      | (None, db2) \<Rightarrow>
     (case RefreshConfiguration name db2 of
        (Some err, db3) \<Rightarrow> (Returns (Some (Errorf ''error refreshing configuration '' err)), db3)
      | (None, db3) \<Rightarrow> (Returns None, db3))))))"

section \<open>Properties of the model\<close>

subsection \<open>Evaluation on concrete store tables\<close>

text \<open>An environment whose five fragments all hold the same raw text.\<close>

definition env_of :: "string \<Rightarrow> TLSEnvironment" where
  "env_of raw = \<lparr>Options_env = raw, Schedule_env = raw, Packs_env = raw,
     Decorators_env = raw, ATC_env = raw, Configuration_env = []\<rparr>"

text \<open>A store with one environment and no fault to come.\<close>

definition single :: "string \<Rightarrow> TLSEnvironment \<Rightarrow> Environment" where
  "single name env = \<lparr>rows = [(name, env)], faults = []\<rparr>"

lemma Get_single: "Get name (single name env) = (Inr env, single name env)"
  by (simp add: Get_def store_call_def single_def)

lemma Update_single:
  "Update name change (single name env) = (None, single name (change env))"
  by (simp add: Update_def store_call_def single_def)

lemma GenStruct_empty_text:
  "GenStructOptions [] = Inl SyntaxError"
  "GenStructSchedule [] = Inl SyntaxError"
  "GenStructPacks [] = Inl SyntaxError"
  "GenStructDecorators [] = Inl SyntaxError"
  "GenStructATC [] = Inl SyntaxError"
  by code_simp+

lemma GenStruct_empty_object:
  "GenStructOptions ''{}'' = Inr (Some [])"
  "GenStructSchedule ''{}'' = Inr (Some [])"
  "GenStructPacks ''{}'' = Inr (Some [])"
  "GenStructDecorators ''{}'' = Inr zero_DecoratorConf"
  "GenStructATC ''{}'' = Inr (Some [])"
  by code_simp+

lemma serialize_all_empty:
  "GenSerializedConf (json_of_OsqueryConf \<lparr>Options = Some [], Schedule = Some [],
      Packs = Some [], Decorators = zero_DecoratorConf, ATC = Some []\<rparr>) True \<noteq> Inl e"
  by (simp add: GenSerializedConf_def MarshalIndent_def json_of_OsqueryConf_def json_of_map_def
      json_of_ScheduleConf_def json_of_DecoratorConf_def zero_DecoratorConf_def
      pushParseState_def maxNestingDepth_def Let_def)

subsection \<open>Decimal notation\<close>

lemma char_of_48: "char_of (48::nat) = CHR ''0''"
proof -
  have b: "of_char (CHR ''0'') = (48::nat)" by simp
  have "char_of (of_char (CHR ''0'') :: nat) = CHR ''0''" by (rule char_of_char)
  then show ?thesis by (simp only: b)
qed

lemma byte_char_of: "n < 256 \<Longrightarrow> byte (char_of n) = n"
  by (simp add: byte_def)

lemma is_digit_digit_char: "d < 10 \<Longrightarrow> is_digit (digit_char d)"
  by (simp add: is_digit_def digit_char_def byte_char_of)

lemma digit_val_digit_char: "d < 10 \<Longrightarrow> digit_val (digit_char d) = d"
  by (simp add: digit_val_def digit_char_def byte_char_of)

lemma digit_char_zero: "d < 10 \<Longrightarrow> (digit_char d = CHR ''0'') = (d = 0)"
proof -
  assume d: "d < 10"
  have "byte (digit_char d) = 48 + d" using d by (simp add: digit_char_def byte_char_of)
  moreover have "byte (CHR ''0'') = 48" by (simp add: byte_def)
  ultimately show ?thesis by (cases "d = 0") (auto simp: digit_char_def char_of_48)
qed

lemma show_nat_digits: "list_all is_digit (show_nat n)"
  by (induction n rule: show_nat.induct) (subst show_nat.simps, simp add: is_digit_digit_char)

lemma show_nat_nonempty: "show_nat n \<noteq> []"
  by (subst show_nat.simps) simp

lemma read_nat_snoc: "read_nat (ds @ [c]) = 10 * read_nat ds + digit_val c"
  by (simp add: read_nat_def)

lemma read_show_nat: "read_nat (show_nat n) = n"
proof (induction n rule: show_nat.induct)
  case (1 n)
  show ?case
  proof (cases "n < 10")
    case True
    then show ?thesis by (subst show_nat.simps) (simp add: read_nat_def digit_val_digit_char)
  next
    case False
    with 1 show ?thesis
      by (subst show_nat.simps) (simp add: read_nat_snoc digit_val_digit_char)
  qed
qed

lemma show_nat_hd: "hd (show_nat n) = CHR ''0'' \<Longrightarrow> n = 0"
proof (induction n rule: show_nat.induct)
  case (1 n)
  show ?case
  proof (cases "n < 10")
    case True
    with "1.prems" show ?thesis
      by (simp add: show_nat.simps[of n] digit_char_zero)
  next
    case False
    then have "hd (show_nat n) = hd (show_nat (n div 10))"
      by (subst show_nat.simps) (simp add: show_nat_nonempty)
    with 1 False have "n div 10 = 0" by simp
    with False show ?thesis by simp
  qed
qed

lemma exp_part_Nil: "exp_part []" by (simp add: exp_part_def)
lemma frac_part_Nil: "frac_part []" by (simp add: frac_part_def)

lemma dropWhile_all: "list_all P xs \<Longrightarrow> dropWhile P xs = []"
  by (induction xs) auto
lemma takeWhile_all: "list_all P xs \<Longrightarrow> takeWhile P xs = xs"
  by (induction xs) auto

lemma int_part_show_nat: "int_part (show_nat n)"
proof (cases "show_nat n")
  case Nil
  then show ?thesis using show_nat_nonempty by simp
next
  case (Cons c r)
  have dr: "is_digit c" "list_all is_digit r"
    using show_nat_digits[of n] Cons by simp_all
  show ?thesis
  proof (cases "c = CHR ''0''")
    case True
    then have "n = 0" using show_nat_hd[of n] Cons by simp
    then have "show_nat n = ''0''" by (simp add: show_nat.simps[of 0] digit_char_def char_of_48)
    then show ?thesis by (simp add: int_part_def frac_part_Nil)
  next
    case False
    then show ?thesis using Cons dr
      by (simp add: int_part_def dropWhile_all frac_part_Nil)
  qed
qed

lemma minus_not_digit: "\<not> is_digit (CHR ''-'')" by (simp add: is_digit_def byte_def)

lemma show_nat_not_minus: "hd (show_nat n) \<noteq> CHR ''-''"
  using show_nat_digits[of n] show_nat_nonempty[of n] minus_not_digit
  by (cases "show_nat n") auto

lemma valid_number_show_int: "valid_number (show_int n)"
proof (cases "n < 0")
  case True
  then show ?thesis by (simp add: show_int_def valid_number_def int_part_show_nat)
next
  case False
  obtain c r where cr: "show_nat (nat n) = c # r"
    using show_nat_nonempty[of "nat n"] by (cases "show_nat (nat n)") auto
  then have "c \<noteq> CHR ''-''" using show_nat_not_minus[of "nat n"] by simp
  then show ?thesis using False cr int_part_show_nat[of "nat n"]
    by (simp add: show_int_def valid_number_def)
qed

lemma int_literal_show_int: "int_literal (show_int n) = Some n"
proof (cases "n < 0")
  case True
  have "valid_number (show_int n)" by (rule valid_number_show_int)
  then show ?thesis using True
    by (simp add: int_literal_def show_int_def show_nat_digits show_nat_nonempty read_show_nat)
next
  case False
  obtain c r where cr: "show_nat (nat n) = c # r"
    using show_nat_nonempty[of "nat n"] by (cases "show_nat (nat n)") auto
  then have c: "c \<noteq> CHR ''-''" using show_nat_not_minus[of "nat n"] by simp
  have v: "valid_number (show_int n)" by (rule valid_number_show_int)
  have d: "list_all is_digit (c # r)" using show_nat_digits[of "nat n"] cr by simp
  have "read_nat (c # r) = nat n" using read_show_nat[of "nat n"] cr by simp
  then show ?thesis using False cr c v d
    by (simp add: int_literal_def show_int_def)
qed

lemma show_int_inj: "show_int a = show_int b \<Longrightarrow> a = b"
proof -
  assume "show_int a = show_int b"
  then have "int_literal (show_int a) = int_literal (show_int b)" by (rule arg_cong)
  then show ?thesis by (simp only: int_literal_show_int option.inject)
qed

lemma show_int_0: "show_int 0 = ''0''"
  by (simp add: show_int_def show_nat.simps[of 0] digit_char_def char_of_48)

lemma show_int_eq_0: "(show_int n = ''0'') = (n = 0)"
proof
  assume "show_int n = ''0''"
  then have "show_int n = show_int 0" by (simp only: show_int_0)
  then show "n = 0" by (rule show_int_inj)
next
  assume "n = 0"
  then show "show_int n = ''0''" by (simp only: show_int_0)
qed

lemma show_int_sint_0: "(show_int (sint (w :: 64 word)) = ''0'') = (w = 0)"
  by (simp add: show_int_eq_0 signed_eq_0_iff)

subsection \<open>The operations succeed only when every step does\<close>

lemma Get_rows: "Get name db = (r, db1) \<Longrightarrow> rows db1 = rows db"
  by (auto simp: Get_def store_call_def split: list.splits if_splits option.splits bool.splits)

lemma GenEmptyConfiguration_nonempty: "GenEmptyConfiguration ds indent \<noteq> []"
  by (simp add: GenEmptyConfiguration_def GenSerializedConf_def
      MarshalIndent_def json_of_OsqueryConf_def empty_cnf_def json_of_map_def
      json_of_ScheduleConf_def json_of_DecoratorConf_def pushParseState_def
      maxNestingDepth_def Let_def)

lemma RefreshConfiguration_success:
  "(fst (RefreshConfiguration name db) = None) =
     (\<exists>env db1 options schedule packs decorators atc indentedConf db2.
        Get name db = (Inr env, db1) \<and>
        GenStructOptions (Options_env env) = Inr options \<and>
        GenStructSchedule (Schedule_env env) = Inr schedule \<and>
        GenStructPacks (Packs_env env) = Inr packs \<and>
        GenStructDecorators (Decorators_env env) = Inr decorators \<and>
        GenStructATC (ATC_env env) = Inr atc \<and>
        GenSerializedConf (json_of_OsqueryConf \<lparr>Options = options, Schedule = schedule,
           Packs = packs, Decorators = decorators, ATC = atc\<rparr>) True = Inr indentedConf \<and>
        Update name (\<lambda>env. env\<lparr>Configuration_env := indentedConf\<rparr>) db1 = (None, db2) \<and>
        snd (RefreshConfiguration name db) = db2)"
  by (auto simp: RefreshConfiguration_def Let_def split: sum.splits prod.splits option.splits)

lemma UpdateConfiguration_success:
  "(fst (UpdateConfiguration name cnf db) = None) =
     (\<exists>indentedConf db1.
        GenSerializedConf (json_of_OsqueryConf cnf) True = Inr indentedConf \<and>
        Update name (\<lambda>env. env\<lparr>Configuration_env := indentedConf\<rparr>) db = (None, db1) \<and>
        snd (UpdateConfiguration name cnf db) = db1)"
  by (auto simp: UpdateConfiguration_def split: sum.splits prod.splits option.splits)

lemma UpdateConfigurationParts_success:
  "(fst (UpdateConfigurationParts name cnf db) = None) =
     (\<exists>indentedOptions indentedSchedule indentedPacks indentedDecorators indentedATC db1.
        GenSerializedConf (json_of_map (Options cnf)) True = Inr indentedOptions \<and>
        GenSerializedConf (json_of_ScheduleConf (Schedule cnf)) True = Inr indentedSchedule \<and>
        GenSerializedConf (json_of_map (Packs cnf)) True = Inr indentedPacks \<and>
        GenSerializedConf (json_of_DecoratorConf (Decorators cnf)) True = Inr indentedDecorators \<and>
        GenSerializedConf (json_of_map (ATC cnf)) True = Inr indentedATC \<and>
        Update name (\<lambda>env. env\<lparr>Options_env := indentedOptions,
                                  Schedule_env := indentedSchedule,
                                  Packs_env := indentedPacks,
                                  Decorators_env := indentedDecorators,
                                  ATC_env := indentedATC\<rparr>) db = (None, db1) \<and>
        snd (UpdateConfigurationParts name cnf db) = db1)"
  by (auto simp: UpdateConfigurationParts_def split: sum.splits prod.splits option.splits)

subsection \<open>Strings: reading back what the encoder writes\<close>

lemma byte_less_256: "byte c < 256"
  by (simp add: byte_def)

lemma char_of_byte: "char_of (byte c) = c"
  by (simp add: byte_def)

lemma byte_eq_iff: "(byte a = byte b) = (a = b)"
  by (metis char_of_byte)

lemma hexval_hexdigit: "d < 16 \<Longrightarrow> hexval (hexdigit d) = Some d"
  by (auto simp: hexval_def hexdigit_def is_digit_def byte_char_of)

lemma byte_consts:
  "byte dq = 34" "byte bsl = 92" "byte nl = 10" "byte cr = 13" "byte tab = 9"
  "byte (CHR ''u'') = 117" "byte (CHR ''0'') = 48" "byte (CHR ''<'') = 60"
  "byte (CHR ''>'') = 62" "byte (CHR ''&'') = 38" "byte (CHR ''/'') = 47"
  "byte (CHR ''b'') = 98" "byte (CHR ''f'') = 102" "byte (CHR ''n'') = 110"
  "byte (CHR ''r'') = 114" "byte (CHR ''t'') = 116"
  by (simp_all add: byte_def dq_def bsl_def nl_def cr_def tab_def)

lemma getu4_00:
  "a < 16 \<Longrightarrow> b < 16 \<Longrightarrow>
   getu4 (bsl # CHR ''u'' # CHR ''0'' # CHR ''0'' # hexdigit a # hexdigit b # tail) = Some (16 * a + b)"
proof -
  have z: "hexval (CHR ''0'') = Some 0"
    by (simp add: hexval_def is_digit_def byte_consts)
  assume "a < 16" "b < 16"
  then show ?thesis
    by (simp add: getu4_def hexval_hexdigit z)
qed

lemma utf8_ascii: "byte c < 128 \<Longrightarrow> utf8 (byte c) = [c]"
  by (simp add: utf8_def char_of_byte)

lemma unquote_rune_small: "v < 0xD800 \<Longrightarrow> unquote_rune v n = (v, False)"
  by (simp add: unquote_rune_def is_surrogate_def)

lemma unescape_u00:
  assumes "byte c < 128"
  shows "unescape (CHR ''u'' # CHR ''0'' # CHR ''0'' # hexdigit (byte c div 16) # hexdigit (byte c mod 16) # tail)
     = Some ([c], 5)"
proof -
  have "byte c div 16 < 16" using assms by simp
  moreover have "byte c mod 16 < 16" by simp
  ultimately have g: "getu4 (bsl # CHR ''u'' # CHR ''0'' # CHR ''0'' # hexdigit (byte c div 16) # hexdigit (byte c mod 16) # tail)
     = Some (byte c)"
    by (simp add: getu4_00)
  have ne: "CHR ''u'' \<noteq> dq" "CHR ''u'' \<noteq> bsl"
    by (simp_all add: dq_def bsl_def)
  show ?thesis
    using assms g ne by (simp add: unescape_def unquote_rune_small utf8_ascii)
qed

lemma lex_str_escape_byte:
  assumes "byte c < 128"
  shows "lex_str (escape_byte c @ tail) = emit [c] (lex_str tail)"
proof -
  have ne: "bsl \<noteq> dq" by (simp add: dq_def bsl_def)
  consider (q) "c = dq \<or> c = bsl" | (n) "c = nl" | (r) "c = cr" | (t) "c = tab"
    | (u) "c \<noteq> dq" "c \<noteq> bsl" "c \<noteq> nl" "c \<noteq> cr" "c \<noteq> tab"
          "byte c < 32 \<or> c = CHR ''<'' \<or> c = CHR ''>'' \<or> c = CHR ''&''"
    | (p) "c \<noteq> dq" "c \<noteq> bsl" "c \<noteq> nl" "c \<noteq> cr" "c \<noteq> tab"
          "\<not> (byte c < 32 \<or> c = CHR ''<'' \<or> c = CHR ''>'' \<or> c = CHR ''&'')"
    by blast
  then show ?thesis
  proof cases
    case q
    then show ?thesis using ne by (auto simp: escape_byte_def unescape_def)
  next
    case n
    then show ?thesis using ne
      by (simp add: escape_byte_def unescape_def) (simp add: dq_def bsl_def nl_def)
  next
    case r
    then show ?thesis using ne
      by (simp add: escape_byte_def unescape_def) (simp add: dq_def bsl_def nl_def cr_def)
  next
    case t
    then show ?thesis using ne
      by (simp add: escape_byte_def unescape_def) (simp add: dq_def bsl_def nl_def cr_def tab_def)
  next
    case u
    then show ?thesis using ne unescape_u00[OF assms]
      by (simp add: escape_byte_def)
  next
    case p
    then show ?thesis using assms
      by (simp add: escape_byte_def)
  qed
qed

lemma conts_take: "conts lo hi k r \<Longrightarrow> conts lo hi k (take (Suc k) r @ t)"
  by (cases r) (auto simp: conts_def)

lemma conts_length: "conts lo hi k r \<Longrightarrow> Suc k \<le> length r"
  by (cases r) (auto simp: conts_def)

lemma rune_len_take:
  assumes "rune_len (a # r) = n" "0 < n" "128 \<le> byte a"
  shows "rune_len (a # take (n - 1) r @ t) = n \<and> n - 1 \<le> length r"
proof (cases "acceptRange a")
  case None
  with assms show ?thesis by (simp add: rune_len_def)
next
  case (Some x)
  obtain lo hi k where x: "x = (lo, hi, k)" by (cases x) auto
  show ?thesis
  proof (cases "conts lo hi k r")
    case False
    with assms Some x show ?thesis by (simp add: rune_len_def)
  next
    case True
    with assms Some x have n: "n = k + 2" by (simp add: rune_len_def)
    from True have "conts lo hi k (take (Suc k) r @ t)" by (rule conts_take)
    with assms(3) Some x n conts_length[OF True] show ?thesis
      by (simp add: rune_len_def)
  qed
qed

lemma char_of_eqI: "byte c = n \<Longrightarrow> char_of n = c"
  using char_of_byte by blast

lemma char_of_consts:
  "char_of (226::nat) = CHR 0xE2" "char_of (128::nat) = CHR 0x80"
  "char_of (168::nat) = CHR 0xA8" "char_of (169::nat) = CHR 0xA9"
  by (rule char_of_eqI, simp add: byte_def)+

lemma utf8_2028: "utf8 0x2028 = [CHR 0xE2, CHR 0x80, CHR 0xA8]"
  by (simp add: utf8_def char_of_consts)

lemma utf8_2029: "utf8 0x2029 = [CHR 0xE2, CHR 0x80, CHR 0xA9]"
  by (simp add: utf8_def char_of_consts)

lemma getu4_2028: "getu4 (bsl # ''u2028'' @ tail) = Some 0x2028"
  by (simp add: getu4_def hexval_def is_digit_def byte_def)

lemma getu4_2029: "getu4 (bsl # ''u2029'' @ tail) = Some 0x2029"
  by (simp add: getu4_def hexval_def is_digit_def byte_def)

lemma unescape_2028:
  "unescape (''u2028'' @ tail) = Some ([CHR 0xE2, CHR 0x80, CHR 0xA8], 5)"
  using getu4_2028[of tail]
  by (simp add: unescape_def unquote_rune_small utf8_2028 dq_def bsl_def)

lemma unescape_2029:
  "unescape (''u2029'' @ tail) = Some ([CHR 0xE2, CHR 0x80, CHR 0xA9], 5)"
  using getu4_2029[of tail]
  by (simp add: unescape_def unquote_rune_small utf8_2029 dq_def bsl_def)

lemma acceptRange_E2: "acceptRange (CHR 0xE2) = Some (0x80, 0xBF, 1)"
  by (simp add: acceptRange_def in_range_def byte_def)

lemma rune_len_E2_80:
  "in_range b 0x80 0xBF \<Longrightarrow> rune_len (CHR 0xE2 # CHR 0x80 # b # r) = 3"
  by (simp add: rune_len_def acceptRange_E2 conts_def) (simp add: in_range_def byte_def)

lemma lex_str_escape:
  "valid_utf8 s \<Longrightarrow> lex_str (escape s @ dq # rest) = Some (s, rest)"
proof (induction "length s" arbitrary: s rule: less_induct)
  case less
  show ?case
  proof (cases s)
    case Nil
    then show ?thesis by simp
  next
    case (Cons c cs)
    show ?thesis
    proof (cases "byte c < 128")
      case True
      then have "rune_len (c # cs) = 1" by (simp add: rune_len_def)
      with less.prems Cons have "valid_utf8 cs" by simp
      with less.hyps[of cs] Cons have "lex_str (escape cs @ dq # rest) = Some (cs, rest)" by simp
      with True Cons show ?thesis
        by (simp add: lex_str_escape_byte emit_def)
    next
      case False
      define n where "n = rune_len (c # cs)"
      from less.prems Cons have n0: "0 < n" and v: "valid_utf8 (drop (n - 1) cs)"
        by (simp_all add: n_def)
      from False have ge: "128 \<le> byte c" by simp
      from rune_len_take[OF n_def[symmetric] n0 ge]
      have rl: "\<And>t. rune_len (c # take (n - 1) cs @ t) = n" and len: "n - 1 \<le> length cs"
        by simp_all
      have IH: "lex_str (escape (drop (n - 1) cs) @ dq # rest) = Some (drop (n - 1) cs, rest)"
        using less.hyps[of "drop (n - 1) cs"] v Cons by simp
      have cne: "c \<noteq> dq" "c \<noteq> bsl" "\<not> byte c < 32"
        using ge by (auto simp: byte_consts)
      have lt: "length (take (n - 1) cs) = n - 1" using len by simp
      consider (ls) "take 3 (c # cs) = [CHR 0xE2, CHR 0x80, CHR 0xA8]"
        | (ps) "take 3 (c # cs) = [CHR 0xE2, CHR 0x80, CHR 0xA9]"
        | (other) "take 3 (c # cs) \<noteq> [CHR 0xE2, CHR 0x80, CHR 0xA8]"
                  "take 3 (c # cs) \<noteq> [CHR 0xE2, CHR 0x80, CHR 0xA9]"
        by blast
      then show ?thesis
      proof cases
        case ls
        then obtain r where cs: "c = CHR 0xE2" "cs = CHR 0x80 # CHR 0xA8 # r"
          by (cases cs; cases "tl cs") auto
        have "in_range (CHR 0xA8) 0x80 0xBF" by (simp add: in_range_def byte_def)
        then have "n = 3" unfolding n_def cs by (rule rune_len_E2_80)
        with IH cs have "lex_str (escape r @ dq # rest) = Some (r, rest)" by simp
        moreover have "escape s = bsl # ''u2028'' @ escape r"
          using Cons cs False n0 by (simp add: n_def)
        ultimately show ?thesis
          using Cons cs unescape_2028[of "escape r @ dq # rest"]
          by (simp add: emit_def dq_def bsl_def)
      next
        case ps
        then obtain r where cs: "c = CHR 0xE2" "cs = CHR 0x80 # CHR 0xA9 # r"
          by (cases cs; cases "tl cs") auto
        have "in_range (CHR 0xA9) 0x80 0xBF" by (simp add: in_range_def byte_def)
        then have "n = 3" unfolding n_def cs by (rule rune_len_E2_80)
        with IH cs have "lex_str (escape r @ dq # rest) = Some (r, rest)" by simp
        moreover have "escape s = bsl # ''u2029'' @ escape r"
          using Cons cs False n0 by (simp add: n_def)
        ultimately show ?thesis
          using Cons cs unescape_2029[of "escape r @ dq # rest"]
          by (simp add: emit_def dq_def bsl_def)
      next
        case other
        have e: "escape s = c # take (n - 1) cs @ escape (drop (n - 1) cs)"
          using Cons False n0 other by (auto simp: n_def take_Cons')
        have "lex_str (c # take (n - 1) cs @ escape (drop (n - 1) cs) @ dq # rest) =
              emit (c # take (n - 1) cs) (lex_str (escape (drop (n - 1) cs) @ dq # rest))"
          using cne ge n0 rl[of "escape (drop (n - 1) cs) @ dq # rest"] lt
          by (simp add: take_Cons')
        with e IH Cons show ?thesis
          by (simp add: emit_def)
      qed
    qed
  qed
qed

subsection \<open>Tokens and layout: reading back what the encoder writes\<close>

text \<open>
  A token that the lexer reads back from its text: a string of well-formed UTF-8, a
  number that is a literal of the scanner.
\<close>

fun tok_ok :: "token \<Rightarrow> bool" where
  "tok_ok (TStr s) = valid_utf8 s"
| "tok_ok (TNum l) = (valid_number l \<and> list_all is_numchar l)"
| "tok_ok _ = True"

text \<open>The tokens that are runs of letters or number characters.\<close>

fun is_word :: "token \<Rightarrow> bool" where
  "is_word (TNum l) = True"
| "is_word TTrue = True"
| "is_word TFalse = True"
| "is_word TNull = True"
| "is_word _ = False"

text \<open>A text that ends a run: it is empty or starts with a character of no run.\<close>

definition delim :: "string \<Rightarrow> bool" where
  "delim r = (case r of [] \<Rightarrow> True | c # _ \<Rightarrow> \<not> is_numchar c \<and> \<not> is_lower c)"

lemma lex_spaces: "list_all isSpace ws \<Longrightarrow> lex (ws @ x) = lex x"
  by (induction ws) auto

lemma takeWhile_run:
  "list_all P l \<Longrightarrow> (case r of [] \<Rightarrow> True | c # _ \<Rightarrow> \<not> P c) \<Longrightarrow> takeWhile P (l @ r) = l"
  by (induction l) (auto split: list.splits)

lemma dropWhile_run:
  "list_all P l \<Longrightarrow> (case r of [] \<Rightarrow> True | c # _ \<Rightarrow> \<not> P c) \<Longrightarrow> dropWhile P (l @ r) = r"
  by (induction l) (auto split: list.splits)

lemma delim_numchar: "delim r \<Longrightarrow> (case r of [] \<Rightarrow> True | c # _ \<Rightarrow> \<not> is_numchar c)"
  by (auto simp: delim_def split: list.splits)

lemma delim_lower: "delim r \<Longrightarrow> (case r of [] \<Rightarrow> True | c # _ \<Rightarrow> \<not> is_lower c)"
  by (auto simp: delim_def split: list.splits)

lemma number_start:
  assumes "is_digit c \<or> c = CHR ''-''"
  shows "\<not> isSpace c" "c \<noteq> CHR ''{''" "c \<noteq> CHR ''}''" "c \<noteq> CHR ''[''" "c \<noteq> CHR '']''"
    "c \<noteq> CHR '',''" "c \<noteq> CHR '':''" "c \<noteq> dq"
  using assms
  by (auto simp: is_digit_def isSpace_def byte_def dq_def tab_def cr_def nl_def)

lemma valid_number_start:
  "valid_number l \<Longrightarrow> \<exists>c l'. l = c # l' \<and> (is_digit c \<or> c = CHR ''-'')"
  by (cases l) (auto simp: valid_number_def int_part_def is_digit_def byte_def split: if_splits)

lemma lex_number:
  assumes "valid_number l" "list_all is_numchar l" "delim r"
  shows "lex (l @ r) = push (TNum l) (lex r)"
proof -
  from assms(1) obtain c l' where l: "l = c # l'" and c: "is_digit c \<or> c = CHR ''-''"
    using valid_number_start by blast
  from assms(2) l have n: "list_all is_numchar l'" by simp
  have t: "takeWhile is_numchar (l' @ r) = l'" "dropWhile is_numchar (l' @ r) = r"
    using n delim_numchar[OF assms(3)] by (simp_all add: takeWhile_run dropWhile_run)
  show ?thesis
    using number_start[OF c] c t assms(1) l by simp
qed

lemma lower_start:
  assumes "is_lower c"
  shows "\<not> isSpace c" "c \<noteq> CHR ''{''" "c \<noteq> CHR ''}''" "c \<noteq> CHR ''[''" "c \<noteq> CHR '']''"
    "c \<noteq> CHR '',''" "c \<noteq> CHR '':''" "c \<noteq> dq" "\<not> is_digit c" "c \<noteq> CHR ''-''"
  using assms
  by (auto simp: is_lower_def is_digit_def isSpace_def byte_def dq_def tab_def cr_def nl_def)

lemma lex_word:
  assumes "is_lower c" "list_all is_lower w" "delim r"
  shows "lex (c # w @ r) =
     (if c # w = ''true'' then push TTrue (lex r)
      else if c # w = ''false'' then push TFalse (lex r)
      else if c # w = ''null'' then push TNull (lex r)
      else None)"
proof -
  have t: "takeWhile is_lower (w @ r) = w" "dropWhile is_lower (w @ r) = r"
    using assms(2) delim_lower[OF assms(3)] by (simp_all add: takeWhile_run dropWhile_run)
  show ?thesis
    by (simp only: lex.simps lower_start[OF assms(1)] t assms(1) if_False if_True simp_thms)
qed

lemma lex_true:
  assumes "delim r"
  shows "lex (''true'' @ r) = push TTrue (lex r)"
proof -
  have a: "is_lower (CHR ''t'')" and b: "list_all is_lower ''rue''"
    by (simp_all add: is_lower_def byte_def)
  from lex_word[OF a b assms] show ?thesis by (simp del: lex.simps)
qed

lemma lex_false:
  assumes "delim r"
  shows "lex (''false'' @ r) = push TFalse (lex r)"
proof -
  have a: "is_lower (CHR ''f'')" and b: "list_all is_lower ''alse''"
    by (simp_all add: is_lower_def byte_def)
  from lex_word[OF a b assms] show ?thesis by (simp del: lex.simps)
qed

lemma lex_null:
  assumes "delim r"
  shows "lex (''null'' @ r) = push TNull (lex r)"
proof -
  have a: "is_lower (CHR ''n'')" and b: "list_all is_lower ''ull''"
    by (simp_all add: is_lower_def byte_def)
  from lex_word[OF a b assms] show ?thesis by (simp del: lex.simps)
qed

lemma lex_string:
  "valid_utf8 s \<Longrightarrow> lex (dq # escape s @ dq # r) = push (TStr s) (lex r)"
  by (simp add: lex_str_escape) (simp add: isSpace_def dq_def tab_def cr_def nl_def)

lemma lex_punct:
  "lex (CHR ''{'' # r) = push LBrace (lex r)"
  "lex (CHR ''}'' # r) = push RBrace (lex r)"
  "lex (CHR ''['' # r) = push LBrack (lex r)"
  "lex (CHR '']'' # r) = push RBrack (lex r)"
  "lex (CHR '','' # r) = push Comma (lex r)"
  "lex (CHR '':'' # r) = push Colon (lex r)"
  by (simp_all add: isSpace_def tab_def cr_def nl_def)

lemma lex_tok:
  assumes "tok_ok t" "is_word t \<Longrightarrow> delim r"
  shows "lex (tok_text t @ r) = push t (lex r)"
proof (cases t)
  case (TStr s)
  with assms show ?thesis by (simp add: lex_string del: lex.simps)
next
  case (TNum l)
  with assms show ?thesis by (simp add: lex_number del: lex.simps)
next
  case TTrue
  with assms lex_true[of r] show ?thesis by (simp del: lex.simps)
next
  case TFalse
  with assms lex_false[of r] show ?thesis by (simp del: lex.simps)
next
  case TNull
  with assms lex_null[of r] show ?thesis by (simp del: lex.simps)
qed (simp_all add: lex_punct del: lex.simps)

text \<open>No two runs stand next to each other in a list of tokens.\<close>

fun separated :: "token list \<Rightarrow> bool" where
  "separated (t # u # ts) = (\<not> (is_word t \<and> is_word u) \<and> separated (u # ts))"
| "separated _ = True"

definition no_word_first :: "token list \<Rightarrow> bool" where
  "no_word_first ts = (case ts of [] \<Rightarrow> True | t # _ \<Rightarrow> \<not> is_word t)"

lemma separated_Cons:
  "separated (t # ts) = ((is_word t \<longrightarrow> no_word_first ts) \<and> separated ts)"
  by (cases ts) (auto simp: no_word_first_def)

lemma isSpace_facts: "isSpace nl" "isSpace (CHR '' '')"
  by (simp_all add: isSpace_def)

lemma isSpace_appendNewline:
  "list_all isSpace ind \<Longrightarrow> list_all isSpace (appendNewline ind d)"
  by (induction d) (simp_all add: appendNewline_def isSpace_facts)

lemma lex_newline:
  "list_all isSpace ind \<Longrightarrow> lex (appendNewline ind d @ x) = lex x"
  by (rule lex_spaces) (rule isSpace_appendNewline)

lemma lex_blank: "lex (CHR '' '' # x) = lex x"
  by (simp add: isSpace_facts)

lemma delim_Cons: "delim (c # x) = (\<not> is_numchar c \<and> \<not> is_lower c)"
  by (simp add: delim_def)

lemma delim_chars:
  "delim (CHR ''{'' # x)" "delim (CHR ''}'' # x)" "delim (CHR ''['' # x)" "delim (CHR '']'' # x)"
  "delim (CHR '','' # x)" "delim (CHR '':'' # x)" "delim (dq # x)" "delim (nl # x)" "delim []"
  by (simp_all add: delim_def is_numchar_def is_lower_def is_digit_def byte_def dq_def nl_def)

lemma delim_appendNewline: "delim (appendNewline ind d @ x)"
  by (simp add: appendNewline_def delim_chars)

lemma delim_appendIndent:
  "no_word_first ts \<Longrightarrow> delim (appendIndent ind need d ts)"
proof (cases ts)
  case Nil
  then show ?thesis by (simp add: delim_chars)
next
  case (Cons t ts')
  assume "no_word_first ts"
  with Cons have "\<not> is_word t" by (simp add: no_word_first_def)
  then show ?thesis using Cons
    by (cases t; cases need) (simp_all add: delim_chars delim_appendNewline)
qed

lemma lex_appendIndent:
  assumes ind: "list_all isSpace ind"
  shows "list_all tok_ok ts \<Longrightarrow> separated ts \<Longrightarrow> lex (appendIndent ind need d ts) = Some ts"
proof (induction ts arbitrary: need d)
  case Nil
  then show ?case by simp
next
  case (Cons t ts)
  from Cons.prems have ok: "tok_ok t" and oks: "list_all tok_ok ts"
    and sep: "separated ts" and w: "is_word t \<Longrightarrow> no_word_first ts"
    by (simp_all add: separated_Cons)
  have IH: "lex (appendIndent ind need' d' ts) = Some ts" for need' d'
    using Cons.IH[OF oks sep] .
  have tk: "lex (tok_text t @ appendIndent ind need' d' ts) = Some (t # ts)" for need' d'
    using lex_tok[OF ok, of "appendIndent ind need' d' ts"] w delim_appendIndent IH
    by (simp add: push_def del: lex.simps)
  have tkb: "lex (tok_text t @ CHR '' '' # appendIndent ind need' d' ts) = Some (t # ts)"
    if "\<not> is_word t" for need' d'
    using lex_tok[OF ok, of "CHR '' '' # appendIndent ind need' d' ts"] that IH[of need' d'] lex_blank
    by (simp add: push_def del: lex.simps)
  have tkn: "lex (tok_text t @ appendNewline ind k @ appendIndent ind need' d' ts) = Some (t # ts)"
    if "\<not> is_word t" for need' d' k
    using lex_tok[OF ok, of "appendNewline ind k @ appendIndent ind need' d' ts"] that
      IH[of need' d'] lex_newline[OF ind]
    by (simp add: push_def del: lex.simps)
  show ?case
    using tk tkb tkn
    by (cases t; cases need)
       (simp_all only: appendIndent.simps token.distinct token.simps if_True if_False simp_thms
          lex_newline[OF ind] is_word.simps not_False_eq_True append_assoc append.simps)
qed

text \<open>The nesting depth of a value: the number of brackets open at its innermost point.\<close>

fun jdepth :: "json \<Rightarrow> nat"
  and jdepth_elems :: "json list \<Rightarrow> nat"
  and jdepth_members :: "(string \<times> json) list \<Rightarrow> nat"
where
  "jdepth (JArr xs) = Suc (jdepth_elems xs)"
| "jdepth (JObj ms) = Suc (jdepth_members ms)"
| "jdepth _ = 0"
| "jdepth_elems [] = 0"
| "jdepth_elems (x # xs) = max (jdepth x) (jdepth_elems xs)"
| "jdepth_members [] = 0"
| "jdepth_members ((k, v) # ms) = max (jdepth v) (jdepth_members ms)"

lemma toks_first: "\<exists>t ts. toks j = t # ts \<and> t \<noteq> RBrack \<and> t \<noteq> RBrace"
  by (cases j) auto

lemma scan_value_or_empty:
  "scan (BeginValueOrEmpty st) (toks j @ rest) = scan (BeginValue st) (toks j @ rest)"
  using toks_first[of j] by auto

lemma scan_toks:
  "length st + jdepth j \<le> maxNestingDepth \<Longrightarrow> complete j st = Some s' \<Longrightarrow>
     scan (BeginValue st) (toks j @ rest) = scan s' rest"
  and scan_toks_elems:
  "xs \<noteq> [] \<Longrightarrow> Suc (length st) + jdepth_elems xs \<le> maxNestingDepth \<Longrightarrow>
     scan (BeginValue (FArr acc # st)) (toks_elems xs @ rest) =
     scan (EndValue (FArr (rev xs @ acc) # st)) rest"
  and scan_toks_members:
  "ms \<noteq> [] \<Longrightarrow> Suc (length st) + jdepth_members ms \<le> maxNestingDepth \<Longrightarrow>
     scan (BeginString (FObj macc # st)) (toks_members ms @ rest) =
     scan (EndValue (FObj (rev ms @ macc) # st)) rest"
proof (induction j and xs and ms arbitrary: st s' rest and st acc rest and st macc rest
    rule: toks_toks_elems_toks_members.induct)
  case 1
  then show ?case by simp
next
  case (2 b)
  then show ?case by (cases b) simp_all
next
  case (3 l)
  then show ?case by simp
next
  case (4 s)
  then show ?case by simp
next
  case (5 xs)
  show ?case
  proof (cases "xs = []")
    case True
    with 5 show ?thesis by (simp add: pushParseState_def)
  next
    case False
    then obtain x xs' where xs: "xs = x # xs'" by (cases xs) auto
    have "scan (BeginValueOrEmpty (FArr [] # st)) (toks_elems xs @ RBrack # rest) =
          scan (BeginValue (FArr [] # st)) (toks_elems xs @ RBrack # rest)"
      unfolding xs using scan_value_or_empty[of "FArr [] # st" x] by simp
    also have "\<dots> = scan (EndValue (FArr (rev xs @ []) # st)) (RBrack # rest)"
      using "5.IH"[OF False, of st "[]" "RBrack # rest"] "5.prems" by simp
    finally show ?thesis using "5.prems" by (simp add: pushParseState_def)
  qed
next
  case (6 ms)
  show ?case
  proof (cases "ms = []")
    case True
    with 6 show ?thesis by (simp add: pushParseState_def)
  next
    case False
    then obtain k v ms' where ms: "ms = (k, v) # ms'" by (cases ms) auto
    have "scan (BeginStringOrEmpty (FObj [] # st)) (toks_members ms @ RBrace # rest) =
          scan (BeginString (FObj [] # st)) (toks_members ms @ RBrace # rest)"
      unfolding ms by simp
    also have "\<dots> = scan (EndValue (FObj (rev ms @ []) # st)) (RBrace # rest)"
      using "6.IH"[OF False, of st "[]" "RBrace # rest"] "6.prems" by simp
    finally show ?thesis using "6.prems" by (simp add: pushParseState_def)
  qed
next
  case 7
  then show ?case by simp
next
  case (8 x xs)
  have a: "scan (BeginValue (FArr acc # st)) (toks x @ r) = scan (EndValue (FArr (x # acc) # st)) r"
    for r
    using "8.IH"(1)[of "FArr acc # st" "EndValue (FArr (x # acc) # st)" r] "8.prems" by simp
  show ?case
  proof (cases "xs = []")
    case True
    then show ?thesis using a[of rest] by simp
  next
    case False
    have "scan (BeginValue (FArr (x # acc) # st)) (toks_elems xs @ rest) =
          scan (EndValue (FArr (rev xs @ x # acc) # st)) rest"
      using "8.IH"(2)[OF False False, of st "x # acc" rest] "8.prems" by simp
    then show ?thesis using False a[of "Comma # toks_elems xs @ rest"] by simp
  qed
next
  case 9
  then show ?case by simp
next
  case (10 k v ms)
  have a: "scan (BeginValue (FKey macc k # st)) (toks v @ r) =
           scan (EndValue (FObj ((k, v) # macc) # st)) r" for r
    using "10.IH"(1)[of "FKey macc k # st" "EndValue (FObj ((k, v) # macc) # st)" r] "10.prems"
    by simp
  show ?case
  proof (cases "ms = []")
    case True
    then show ?thesis using a[of rest] by simp
  next
    case False
    have "scan (BeginString (FObj ((k, v) # macc) # st)) (toks_members ms @ rest) =
          scan (EndValue (FObj (rev ms @ (k, v) # macc) # st)) rest"
      using "10.IH"(2)[OF False False, of st "(k, v) # macc" rest] "10.prems" by simp
    then show ?thesis using False a[of "Comma # toks_members ms @ rest"] by simp
  qed
qed

text \<open>
  A JSON value that is read back from its text: strings and keys of well-formed UTF-8,
  numbers that are literals of the scanner.
\<close>

fun json_ok :: "json \<Rightarrow> bool"
  and json_ok_elems :: "json list \<Rightarrow> bool"
  and json_ok_members :: "(string \<times> json) list \<Rightarrow> bool"
where
  "json_ok (JStr s) = valid_utf8 s"
| "json_ok (JNum l) = (valid_number l \<and> list_all is_numchar l)"
| "json_ok (JArr xs) = json_ok_elems xs"
| "json_ok (JObj ms) = json_ok_members ms"
| "json_ok _ = True"
| "json_ok_elems [] = True"
| "json_ok_elems (x # xs) = (json_ok x \<and> json_ok_elems xs)"
| "json_ok_members [] = True"
| "json_ok_members ((k, v) # ms) = (valid_utf8 k \<and> json_ok v \<and> json_ok_members ms)"

lemma tok_ok_toks:
  "json_ok j \<Longrightarrow> list_all tok_ok (toks j)"
  "json_ok_elems xs \<Longrightarrow> list_all tok_ok (toks_elems xs)"
  "json_ok_members ms \<Longrightarrow> list_all tok_ok (toks_members ms)"
  by (induction j and xs and ms rule: toks_toks_elems_toks_members.induct) auto

lemma no_word_first_simps:
  "no_word_first []" "no_word_first (t # ts) = (\<not> is_word t)"
  by (simp_all add: no_word_first_def)

lemma separated_toks:
  "separated r \<Longrightarrow> no_word_first r \<Longrightarrow> separated (toks j @ r)"
  "separated r \<Longrightarrow> no_word_first r \<Longrightarrow> separated (toks_elems xs @ r)"
  "separated r \<Longrightarrow> no_word_first r \<Longrightarrow> separated (toks_members ms @ r)"
proof (induction j and xs and ms arbitrary: r and r and r
    rule: toks_toks_elems_toks_members.induct)
  case (5 xs)
  then show ?case by (simp add: separated_Cons no_word_first_simps)
next
  case (6 ms)
  then show ?case by (simp add: separated_Cons no_word_first_simps)
next
  case (8 x xs)
  show ?case
  proof (cases "xs = []")
    case True
    with 8 show ?thesis by simp
  next
    case False
    have "separated (Comma # toks_elems xs @ r)"
      using "8.IH"(2)[OF False "8.prems"] by (simp add: separated_Cons)
    then have "separated (toks x @ Comma # toks_elems xs @ r)"
      by (rule "8.IH"(1)) (simp add: no_word_first_simps)
    with False show ?thesis by simp
  qed
next
  case (10 k v ms)
  show ?case
  proof (cases "ms = []")
    case True
    with 10 show ?thesis by (simp add: separated_Cons no_word_first_simps)
  next
    case False
    have "separated (Comma # toks_members ms @ r)"
      using "10.IH"(2)[OF False "10.prems"] by (simp add: separated_Cons)
    then have "separated (toks v @ Comma # toks_members ms @ r)"
      by (rule "10.IH"(1)) (simp add: no_word_first_simps)
    with False show ?thesis by (simp add: separated_Cons no_word_first_simps)
  qed
qed (simp_all add: separated_Cons no_word_first_simps)

lemma scan_toks_top:
  "jdepth j \<le> maxNestingDepth \<Longrightarrow> scan (BeginValue []) (toks j) = Some (EndTop j)"
  using scan_toks[of "[]" j "EndTop j" "[]"] by simp

text \<open>Within the nesting limit, \<^verbatim>\<open>json.MarshalIndent\<close> succeeds with the indented layout of
  the tokens.\<close>

lemma MarshalIndent_eq:
  "jdepth j \<le> maxNestingDepth \<Longrightarrow> MarshalIndent j ind = Inr (appendIndent ind False 0 (toks j))"
  by (simp add: MarshalIndent_def scan_toks_top)

text \<open>The layout is read back as the value, for an indentation of white space.\<close>

lemma json_of_text_layout:
  assumes "json_ok j" "jdepth j \<le> maxNestingDepth" "list_all isSpace ind"
  shows "json_of_text (appendIndent ind need d (toks j)) = Some j"
proof -
  have "separated (toks j @ [])"
    by (rule separated_toks) (simp_all add: no_word_first_simps)
  then have "lex (appendIndent ind need d (toks j)) = Some (toks j)"
    using lex_appendIndent[OF assms(3) tok_ok_toks(1)[OF assms(1)]] by simp
  then show ?thesis
    by (simp add: json_of_text_def scan_toks_top[OF assms(2)])
qed

lemma GenSerializedConf_eq:
  "jdepth j \<le> maxNestingDepth \<Longrightarrow>
     GenSerializedConf j indent =
       Inr (appendIndent (if indent then ''  '' else []) False 0 (toks j))"
  by (simp add: GenSerializedConf_def MarshalIndent_eq)

lemma checkValid_GenSerializedConf:
  assumes "json_ok j" "jdepth j \<le> maxNestingDepth"
  shows "\<exists>txt. GenSerializedConf j indent = Inr txt \<and> checkValid txt = Inr j"
proof -
  have "list_all isSpace (if indent then ''  '' else [])"
    by (simp add: isSpace_def)
  from json_of_text_layout[OF assms this]
  show ?thesis by (simp add: GenSerializedConf_eq[OF assms(2)] checkValid_def)
qed

subsection \<open>Decoding what was encoded\<close>

lemma bindE_Inr [simp]: "bindE (Inr x) f = f x"
  by (simp add: bindE_def)

lemma bindE_Inl [simp]: "bindE (Inl e) f = Inl e"
  by (simp add: bindE_def)

lemma foldE_append:
  "foldE f a (xs @ ys) = bindE (foldE f a xs) (\<lambda>a'. foldE f a' ys)"
  by (induction xs arbitrary: a) (auto simp: bindE_def split: sum.splits)

text \<open>
  A value of type \<^verbatim>\<open>interface{}\<close> that is inside the model and has a text: numbers
  that float64 holds exactly, strings and keys of well-formed UTF-8, the entries of every
  map in ascending key order.
\<close>

fun iface_wf :: "iface \<Rightarrow> bool"
  and iface_wf_elems :: "iface list \<Rightarrow> bool"
  and iface_wf_members :: "(string \<times> iface) list \<Rightarrow> bool"
where
  "iface_wf (INum n) = (- (2 ^ 53) < n \<and> n < 2 ^ 53)"
| "iface_wf (IStr s) = valid_utf8 s"
| "iface_wf (IArr xs) = iface_wf_elems xs"
| "iface_wf (IObj ms) = (sorted_wrt (<) (map fst ms) \<and> iface_wf_members ms)"
| "iface_wf _ = True"
| "iface_wf_elems [] = True"
| "iface_wf_elems (x # xs) = (iface_wf x \<and> iface_wf_elems xs)"
| "iface_wf_members [] = True"
| "iface_wf_members ((k, v) # ms) = (valid_utf8 k \<and> iface_wf v \<and> iface_wf_members ms)"

lemma map_set_snoc:
  "sorted_wrt (<) (map fst (acc @ [(k, v)])) \<Longrightarrow> map_set k v acc = acc @ [(k, v)]"
proof (induction acc)
  case Nil
  then show ?case by simp
next
  case (Cons a acc)
  obtain k' v' where a: "a = (k', v')" by (cases a)
  from Cons.prems a have lt: "k' < k" by (auto simp: sorted_wrt_append)
  from Cons.prems have "sorted_wrt (<) (map fst (acc @ [(k, v)]))" by simp
  with Cons.IH have "map_set k v acc = acc @ [(k, v)]" by simp
  with a lt show ?case by (auto simp: not_less_iff_gr_or_eq)
qed

lemma show_int_not_minus_zero: "show_int n \<noteq> ''-0''"
proof
  assume a: "show_int n = ''-0''"
  have "int_literal ''-0'' = Some 0"
    by (simp add: int_literal_def valid_number_def int_part_def frac_part_def is_digit_def
        byte_def read_nat_def digit_val_def)
  with a int_literal_show_int[of n] have "n = 0" by simp
  with a show False by (simp add: show_int_0)
qed

lemma float_of_literal_show_int:
  "- (2 ^ 53) < n \<Longrightarrow> n < 2 ^ 53 \<Longrightarrow> float_of_literal (show_int n) = Some n"
  by (simp add: float_of_literal_def int_literal_show_int show_int_not_minus_zero)

lemma valueInterface_json_of_iface:
  "iface_wf v \<Longrightarrow> valueInterface (json_of_iface v) = Inr v"
  "iface_wf_elems xs \<Longrightarrow> arrayInterface (map json_of_iface xs) = Inr xs"
  "iface_wf_members ms \<Longrightarrow> sorted_wrt (<) (map fst (acc @ ms)) \<Longrightarrow>
     objectInterface (map (map_prod id json_of_iface) ms) acc = Inr (acc @ ms)"
proof (induction v and xs and ms arbitrary: and and acc
    rule: iface_wf_iface_wf_elems_iface_wf_members.induct)
  case (1 n)
  then show ?case by (simp add: float_of_literal_show_int)
next
  case (4 ms)
  then show ?case using "4.IH"[of "[]"] by (simp add: id_def)
next
  case (9 k v ms)
  from "9.prems" have s: "sorted_wrt (<) (map fst (acc @ [(k, v)]))"
    by (simp add: sorted_wrt_append)
  have "objectInterface (map (map_prod id json_of_iface) ms) (acc @ [(k, v)]) =
        Inr ((acc @ [(k, v)]) @ ms)"
    using "9.IH"(2)[of "acc @ [(k, v)]"] "9.prems" by (simp add: id_def)
  with "9.IH"(1) "9.prems" s show ?case
    by (simp add: map_set_snoc id_def)
qed simp_all

lemma fieldOf_ScheduleQuery:
  "fieldOf ScheduleQuery_fields ''query'' = Some ''query''"
  "fieldOf ScheduleQuery_fields ''interval'' = Some ''interval''"
  "fieldOf ScheduleQuery_fields ''removed'' = Some ''removed''"
  "fieldOf ScheduleQuery_fields ''snapshot'' = Some ''snapshot''"
  "fieldOf ScheduleQuery_fields ''platform'' = Some ''platform''"
  "fieldOf ScheduleQuery_fields ''version'' = Some ''version''"
  "fieldOf ScheduleQuery_fields ''shard'' = Some ''shard''"
  "fieldOf ScheduleQuery_fields ''denylist'' = Some ''denylist''"
  by (simp_all add: fieldOf_def ScheduleQuery_fields_def)

lemma into_int_show_int:
  "into_int old (JNum (show_int (sint (w :: 64 word)))) = Inr w"
proof -
  have "- (2 ^ 63) \<le> sint w" "sint w < 2 ^ 63"
    using sint_ge[of w] sint_lt[of w] by simp_all
  then show ?thesis
    by (simp add: into_int_def int_literal_show_int)
qed

lemma member_query:
  "Query a = [] \<Longrightarrow>
   foldE member_ScheduleQuery a (if s = [] then [] else [(''query'', JStr s)]) = Inr (a\<lparr>Query := s\<rparr>)"
  by (simp add: member_ScheduleQuery_def fieldOf_ScheduleQuery into_string_def)

lemma member_interval:
  "Interval a = 0 \<Longrightarrow>
   foldE member_ScheduleQuery a
     (if w = 0 then [] else [(''interval'', JNum (show_int (sint w)))]) = Inr (a\<lparr>Interval := w\<rparr>)"
  by (simp add: member_ScheduleQuery_def fieldOf_ScheduleQuery into_int_show_int)

lemma member_removed:
  "\<not> Removed a \<Longrightarrow>
   foldE member_ScheduleQuery a (if b then [(''removed'', JBool True)] else []) = Inr (a\<lparr>Removed := b\<rparr>)"
  by (simp add: member_ScheduleQuery_def fieldOf_ScheduleQuery into_bool_def)

lemma member_snapshot:
  "\<not> Snapshot a \<Longrightarrow>
   foldE member_ScheduleQuery a (if b then [(''snapshot'', JBool True)] else []) = Inr (a\<lparr>Snapshot := b\<rparr>)"
  by (simp add: member_ScheduleQuery_def fieldOf_ScheduleQuery into_bool_def)

lemma member_platform:
  "Platform a = [] \<Longrightarrow>
   foldE member_ScheduleQuery a (if s = [] then [] else [(''platform'', JStr s)]) = Inr (a\<lparr>Platform := s\<rparr>)"
  by (simp add: member_ScheduleQuery_def fieldOf_ScheduleQuery into_string_def)

lemma member_version:
  "Version a = [] \<Longrightarrow>
   foldE member_ScheduleQuery a (if s = [] then [] else [(''version'', JStr s)]) = Inr (a\<lparr>Version := s\<rparr>)"
  by (simp add: member_ScheduleQuery_def fieldOf_ScheduleQuery into_string_def)

lemma member_shard:
  "Shard a = 0 \<Longrightarrow>
   foldE member_ScheduleQuery a
     (if w = 0 then [] else [(''shard'', JNum (show_int (sint w)))]) = Inr (a\<lparr>Shard := w\<rparr>)"
  by (simp add: member_ScheduleQuery_def fieldOf_ScheduleQuery into_int_show_int)

lemma member_denylist:
  "\<not> Denylist a \<Longrightarrow>
   foldE member_ScheduleQuery a (if b then [(''denylist'', JBool True)] else []) = Inr (a\<lparr>Denylist := b\<rparr>)"
  by (simp add: member_ScheduleQuery_def fieldOf_ScheduleQuery into_bool_def)

lemma into_ScheduleQuery_json:
  "into_ScheduleQuery zero_ScheduleQuery (json_of_ScheduleQuery q) = Inr q"
proof -
  have "foldE member_ScheduleQuery zero_ScheduleQuery
     ((if Query q = [] then [] else [(''query'', JStr (Query q))]) @
      (if Interval q = 0 then [] else [(''interval'', JNum (show_int (sint (Interval q))))]) @
      (if Removed q then [(''removed'', JBool True)] else []) @
      (if Snapshot q then [(''snapshot'', JBool True)] else []) @
      (if Platform q = [] then [] else [(''platform'', JStr (Platform q))]) @
      (if Version q = [] then [] else [(''version'', JStr (Version q))]) @
      (if Shard q = 0 then [] else [(''shard'', JNum (show_int (sint (Shard q))))]) @
      (if Denylist q then [(''denylist'', JBool True)] else [])) =
     Inr (zero_ScheduleQuery\<lparr>Query := Query q, Interval := Interval q, Removed := Removed q,
        Snapshot := Snapshot q, Platform := Platform q, Version := Version q,
        Shard := Shard q, Denylist := Denylist q\<rparr>)"
    by (simp only: foldE_append)
       (simp add: member_query member_interval member_removed member_snapshot member_platform
          member_version member_shard member_denylist zero_ScheduleQuery_def
          del: foldE.simps)
  moreover have "zero_ScheduleQuery\<lparr>Query := Query q, Interval := Interval q, Removed := Removed q,
        Snapshot := Snapshot q, Platform := Platform q, Version := Version q,
        Shard := Shard q, Denylist := Denylist q\<rparr> = q"
    by (cases q) (simp add: zero_ScheduleQuery_def)
  ultimately show ?thesis
    by (simp add: into_ScheduleQuery_def json_of_ScheduleQuery_def del: foldE.simps)
qed

text \<open>The entries of a map variable are in ascending key order, and its values are inside
  the model.\<close>

definition map_wf :: "(string \<times> iface) list option \<Rightarrow> bool" where
  "map_wf m = (case m of None \<Rightarrow> True
     | Some ms \<Rightarrow> sorted_wrt (<) (map fst ms) \<and> iface_wf_members ms)"

definition schedule_wf :: "ScheduleConf \<Rightarrow> bool" where
  "schedule_wf m = (case m of None \<Rightarrow> True | Some ms \<Rightarrow> sorted_wrt (<) (map fst ms))"

lemma into_map_json:
  "map_wf m \<Longrightarrow> into_map None (json_of_map m) = Inr m"
  using valueInterface_json_of_iface(3)[of _ "[]"]
  by (cases m) (simp_all add: map_wf_def into_map_def json_of_map_def id_def)

lemma member_ScheduleConf_json:
  "member_ScheduleConf acc (k, json_of_ScheduleQuery q) = Inr (map_set k q acc)"
  by (simp add: member_ScheduleConf_def into_ScheduleQuery_json)

lemma foldE_member_ScheduleConf:
  "sorted_wrt (<) (map fst (acc @ ms)) \<Longrightarrow>
   foldE member_ScheduleConf acc (map (map_prod id json_of_ScheduleQuery) ms) = Inr (acc @ ms)"
proof (induction ms arbitrary: acc)
  case Nil
  then show ?case by simp
next
  case (Cons a ms)
  obtain k q where a: "a = (k, q)" by (cases a)
  from Cons.prems a have s: "sorted_wrt (<) (map fst (acc @ [(k, q)]))"
    by (simp add: sorted_wrt_append)
  have "foldE member_ScheduleConf (acc @ [(k, q)]) (map (map_prod id json_of_ScheduleQuery) ms) =
        Inr ((acc @ [(k, q)]) @ ms)"
    using Cons.IH[of "acc @ [(k, q)]"] Cons.prems a by (simp add: id_def)
  with a s show ?case
    by (simp add: member_ScheduleConf_json map_set_snoc id_def)
qed

lemma into_ScheduleConf_json:
  "schedule_wf m \<Longrightarrow> into_ScheduleConf None (json_of_ScheduleConf m) = Inr m"
  using foldE_member_ScheduleConf[of "[]"]
  by (cases m) (simp_all add: schedule_wf_def into_ScheduleConf_def json_of_ScheduleConf_def id_def)

lemma into_elems_JStr: "into_elems old (map JStr xs) = Inr xs"
  by (induction xs arbitrary: old) (simp_all add: into_string_def)

lemma fieldOf_DecoratorConf:
  "fieldOf DecoratorConf_fields ''load'' = Some ''load''"
  "fieldOf DecoratorConf_fields ''always'' = Some ''always''"
  "fieldOf DecoratorConf_fields ''interval'' = Some ''interval''"
  by (simp_all add: fieldOf_def DecoratorConf_fields_def)

lemma member_load:
  "Load a = [] \<Longrightarrow>
   foldE member_DecoratorConf a (if xs = [] then [] else [(''load'', JArr (map JStr xs))]) =
     Inr (a\<lparr>Load := xs\<rparr>)"
  by (simp add: member_DecoratorConf_def fieldOf_DecoratorConf into_strings_def into_elems_JStr)

lemma member_always:
  "Always a = [] \<Longrightarrow>
   foldE member_DecoratorConf a (if xs = [] then [] else [(''always'', JArr (map JStr xs))]) =
     Inr (a\<lparr>Always := xs\<rparr>)"
  by (simp add: member_DecoratorConf_def fieldOf_DecoratorConf into_strings_def into_elems_JStr)

lemma member_interval_decorators:
  "Interval_decorators a = INil \<Longrightarrow> iface_wf v \<Longrightarrow>
   foldE member_DecoratorConf a (if v = INil then [] else [(''interval'', json_of_iface v)]) =
     Inr (a\<lparr>Interval_decorators := v\<rparr>)"
  by (simp add: member_DecoratorConf_def fieldOf_DecoratorConf into_iface_def
      valueInterface_json_of_iface)

lemma into_DecoratorConf_json:
  assumes "iface_wf (Interval_decorators d)"
  shows "into_DecoratorConf zero_DecoratorConf (json_of_DecoratorConf d) = Inr d"
proof -
  have "foldE member_DecoratorConf zero_DecoratorConf
     ((if Load d = [] then [] else [(''load'', JArr (map JStr (Load d)))]) @
      (if Always d = [] then [] else [(''always'', JArr (map JStr (Always d)))]) @
      (if Interval_decorators d = INil then []
       else [(''interval'', json_of_iface (Interval_decorators d))])) =
     Inr (zero_DecoratorConf\<lparr>Load := Load d, Always := Always d,
        Interval_decorators := Interval_decorators d\<rparr>)"
    by (simp only: foldE_append)
       (simp add: member_load member_always member_interval_decorators assms
          zero_DecoratorConf_def del: foldE.simps)
  moreover have "zero_DecoratorConf\<lparr>Load := Load d, Always := Always d,
        Interval_decorators := Interval_decorators d\<rparr> = d"
    by (cases d) (simp add: zero_DecoratorConf_def)
  ultimately show ?thesis
    by (simp add: into_DecoratorConf_def json_of_DecoratorConf_def del: foldE.simps)
qed

lemma fieldOf_OsqueryConf:
  "fieldOf OsqueryConf_fields ''options'' = Some ''options''"
  "fieldOf OsqueryConf_fields ''schedule'' = Some ''schedule''"
  "fieldOf OsqueryConf_fields ''packs'' = Some ''packs''"
  "fieldOf OsqueryConf_fields ''decorators'' = Some ''decorators''"
  "fieldOf OsqueryConf_fields ''auto_table_construction'' = Some ''auto_table_construction''"
  by (simp_all add: fieldOf_def OsqueryConf_fields_def)

lemma into_OsqueryConf_json:
  assumes "map_wf (Options c)" "schedule_wf (Schedule c)" "map_wf (Packs c)"
    "iface_wf (Interval_decorators (Decorators c))" "map_wf (ATC c)"
  shows "into_OsqueryConf zero_OsqueryConf (json_of_OsqueryConf c) = Inr c"
proof -
  have "zero_OsqueryConf\<lparr>Options := Options c, Schedule := Schedule c, Packs := Packs c,
      Decorators := Decorators c, ATC := ATC c\<rparr> = c"
    by (cases c) (simp add: zero_OsqueryConf_def)
  then show ?thesis
    using assms
    by (simp add: into_OsqueryConf_def json_of_OsqueryConf_def member_OsqueryConf_def
        fieldOf_OsqueryConf into_map_json into_ScheduleConf_json into_DecoratorConf_json
        zero_OsqueryConf_def)
qed

lemma is_numchar_digit: "is_digit c \<Longrightarrow> is_numchar c"
  by (simp add: is_numchar_def)

lemma show_nat_numchars: "list_all is_numchar (show_nat n)"
  using show_nat_digits[of n] by (induction "show_nat n") (auto simp: list_all_iff is_numchar_digit)

lemma show_int_numchars: "list_all is_numchar (show_int n)"
  by (simp add: show_int_def show_nat_numchars) (simp add: is_numchar_def)

lemma json_ok_members_append:
  "json_ok_members (xs @ ys) = (json_ok_members xs \<and> json_ok_members ys)"
  by (induction xs) auto


lemma json_ok_iface:
  "iface_wf v \<Longrightarrow> json_ok (json_of_iface v)"
  "iface_wf_elems xs \<Longrightarrow> json_ok_elems (map json_of_iface xs)"
  "iface_wf_members ms \<Longrightarrow> json_ok_members (map (map_prod id json_of_iface) ms)"
  by (induction v and xs and ms rule: iface_wf_iface_wf_elems_iface_wf_members.induct)
     (simp_all add: valid_number_show_int show_int_numchars)

text \<open>Three strings of a schedule entry are free text.\<close>

definition ScheduleQuery_utf8 :: "ScheduleQuery \<Rightarrow> bool" where
  "ScheduleQuery_utf8 q = (valid_utf8 (Query q) \<and> valid_utf8 (Platform q) \<and> valid_utf8 (Version q))"

lemma valid_utf8_names:
  "valid_utf8 ''query''" "valid_utf8 ''interval''" "valid_utf8 ''removed''"
  "valid_utf8 ''snapshot''" "valid_utf8 ''platform''" "valid_utf8 ''version''"
  "valid_utf8 ''shard''" "valid_utf8 ''denylist''" "valid_utf8 ''load''" "valid_utf8 ''always''"
  "valid_utf8 ''options''" "valid_utf8 ''schedule''" "valid_utf8 ''packs''"
  "valid_utf8 ''decorators''" "valid_utf8 ''auto_table_construction''"
  by (simp_all add: rune_len_def byte_def)

lemma json_ok_ScheduleQuery:
  "ScheduleQuery_utf8 q \<Longrightarrow> json_ok (json_of_ScheduleQuery q)"
  by (simp add: json_of_ScheduleQuery_def ScheduleQuery_utf8_def json_ok_members_append
      valid_utf8_names valid_number_show_int show_int_numchars del: valid_utf8.simps)



definition valid_ScheduleConf :: "ScheduleConf \<Rightarrow> bool" where
  "valid_ScheduleConf m =
     (case m of
        None \<Rightarrow> True
      | Some ms \<Rightarrow> sorted_wrt (<) (map fst ms) \<and>
          list_all (\<lambda>e. valid_utf8 (fst e) \<and> ScheduleQuery_utf8 (snd e)) ms)"

definition decorators_wf :: "DecoratorConf \<Rightarrow> bool" where
  "decorators_wf d = (list_all valid_utf8 (Load d) \<and> list_all valid_utf8 (Always d) \<and>
     iface_wf (Interval_decorators d))"


definition valid_OsqueryConf :: "OsqueryConf \<Rightarrow> bool" where
  "valid_OsqueryConf c =
     (map_wf (Options c) \<and> valid_ScheduleConf (Schedule c) \<and> map_wf (Packs c) \<and>
      decorators_wf (Decorators c) \<and> map_wf (ATC c) \<and>
      jdepth (json_of_OsqueryConf c) \<le> maxNestingDepth)"

lemma json_ok_map: "map_wf m \<Longrightarrow> json_ok (json_of_map m)"
  by (cases m) (simp_all add: map_wf_def json_of_map_def json_ok_iface)

lemma json_ok_schedule_members:
  "list_all (\<lambda>e. valid_utf8 (fst e) \<and> ScheduleQuery_utf8 (snd e)) ms \<Longrightarrow>
   json_ok_members (map (map_prod id json_of_ScheduleQuery) ms)"
  by (induction ms) (auto simp: json_ok_ScheduleQuery simp del: valid_utf8.simps)


lemma json_ok_ScheduleConf: "valid_ScheduleConf m \<Longrightarrow> json_ok (json_of_ScheduleConf m)"
  by (cases m) (simp_all add: valid_ScheduleConf_def json_of_ScheduleConf_def json_ok_schedule_members)


lemma schedule_wf_valid: "valid_ScheduleConf m \<Longrightarrow> schedule_wf m"
  by (cases m) (simp_all add: valid_ScheduleConf_def schedule_wf_def)

lemma json_ok_strings: "list_all valid_utf8 xs \<Longrightarrow> json_ok_elems (map JStr xs)"
  by (induction xs) (simp_all del: valid_utf8.simps)

lemma json_ok_DecoratorConf: "decorators_wf d \<Longrightarrow> json_ok (json_of_DecoratorConf d)"
  by (simp add: decorators_wf_def json_of_DecoratorConf_def json_ok_members_append
      json_ok_strings json_ok_iface valid_utf8_names del: valid_utf8.simps)

lemma json_ok_OsqueryConf: "valid_OsqueryConf c \<Longrightarrow> json_ok (json_of_OsqueryConf c)"
  by (simp add: valid_OsqueryConf_def json_of_OsqueryConf_def json_ok_map json_ok_ScheduleConf
      json_ok_DecoratorConf valid_utf8_names del: valid_utf8.simps)




lemma roundtrip_OsqueryConf:
  assumes "valid_OsqueryConf c"
  shows "\<exists>txt. GenSerializedConf (json_of_OsqueryConf c) indent = Inr txt \<and>
     GenStructConf txt = Inr c"
proof -
  from assms have dp: "jdepth (json_of_OsqueryConf c) \<le> maxNestingDepth"
    by (simp add: valid_OsqueryConf_def)
  from checkValid_GenSerializedConf[OF json_ok_OsqueryConf[OF assms] dp, of indent]
  obtain raw where "GenSerializedConf (json_of_OsqueryConf c) indent = Inr raw"
    and "checkValid raw = Inr (json_of_OsqueryConf c)" by blast
  then show ?thesis
    using into_OsqueryConf_json[of c] assms schedule_wf_valid[of "Schedule c"]
    by (simp add: GenStructConf_def valid_OsqueryConf_def decorators_wf_def)
qed

section \<open>The claims\<close>

text \<open>
  C1 (as stated, refuted). The claim says that an empty raw text decodes without error
  to the empty instance of its kind and that composing five empty raw fragments succeeds.
  In the code every \<^verbatim>\<open>GenStruct\<close> function hands the text to \<^verbatim>\<open>json.Unmarshal\<close>, for
  which the empty text is a syntax error (unexpected end of JSON input); a refresh of an
  environment whose five fragments are empty stops at the options fragment.
\<close>

theorem C1_empty_raw_is_rejected:
  "GenStructOptions [] = Inl SyntaxError \<and>
   GenStructDecorators [] = Inl SyntaxError \<and>
   fst (RefreshConfiguration ''dev'' (single ''dev'' (env_of []))) =
     Some (Errorf ''error structuring options '' SyntaxError)"
  by (simp add: GenStruct_empty_text RefreshConfiguration_def Get_single env_of_def)

text \<open>
  C1 (amended). For every fragment kind the empty raw text is a syntax error, and the
  text \<^verbatim>\<open>{}\<close> decodes without error to the empty instance of the kind: an empty map, or
  for the decorators an instance whose three slots are empty. A refresh over five
  fragments \<^verbatim>\<open>{}\<close> succeeds.
\<close>

theorem C1_empty_object_decodes_to_empty_instance:
  "GenStructOptions [] = Inl SyntaxError \<and>
   GenStructSchedule [] = Inl SyntaxError \<and>
   GenStructPacks [] = Inl SyntaxError \<and>
   GenStructDecorators [] = Inl SyntaxError \<and>
   GenStructATC [] = Inl SyntaxError \<and>
   GenStructOptions ''{}'' = Inr (Some []) \<and>
   GenStructSchedule ''{}'' = Inr (Some []) \<and>
   GenStructPacks ''{}'' = Inr (Some []) \<and>
   GenStructDecorators ''{}'' = Inr \<lparr>Load = [], Always = [], Interval_decorators = INil\<rparr> \<and>
   GenStructATC ''{}'' = Inr (Some []) \<and>
   fst (RefreshConfiguration name (single name (env_of ''{}''))) = None"
proof -
  have "fst (RefreshConfiguration name (single name (env_of ''{}''))) = None"
    using serialize_all_empty
    by (auto simp: RefreshConfiguration_def Get_single Update_single env_of_def
        GenStruct_empty_object Let_def split: sum.splits)
  then show ?thesis
    by (simp add: GenStruct_empty_text GenStruct_empty_object zero_DecoratorConf_def)
qed

text \<open>
  C2. A refresh is all or nothing: when the decoding of one of the five raw fragments
  of the environment fails, the call returns an error that names a fragment whose
  decoding failed, with that failure as its cause (the first such fragment in the order
  options, schedule, packs, decorators, ATC), and the table of the store is as it was:
  no composed configuration has been written.
\<close>

theorem C2_refresh_all_or_nothing:
  assumes "Get name db = (Inr env, db1)"
    and "GenStructOptions (Options_env env) = Inl e \<or>
         GenStructSchedule (Schedule_env env) = Inl e \<or>
         GenStructPacks (Packs_env env) = Inl e \<or>
         GenStructDecorators (Decorators_env env) = Inl e \<or>
         GenStructATC (ATC_env env) = Inl e"
  shows "(\<exists>e'.
           (RefreshConfiguration name db = (Some (Errorf ''error structuring options '' e'), db1)
             \<and> GenStructOptions (Options_env env) = Inl e')
         \<or> (RefreshConfiguration name db = (Some (Errorf ''error structuring schedule '' e'), db1)
             \<and> GenStructSchedule (Schedule_env env) = Inl e')
         \<or> (RefreshConfiguration name db = (Some (Errorf ''error structuring packs '' e'), db1)
             \<and> GenStructPacks (Packs_env env) = Inl e')
         \<or> (RefreshConfiguration name db = (Some (Errorf ''error structuring decorators '' e'), db1)
             \<and> GenStructDecorators (Decorators_env env) = Inl e')
         \<or> (RefreshConfiguration name db = (Some (Errorf ''error structuring ATC '' e'), db1)
             \<and> GenStructATC (ATC_env env) = Inl e'))
         \<and> rows db1 = rows db"
proof -
  have r: "rows db1 = rows db"
    using assms(1) by (rule Get_rows)
  show ?thesis
    using assms r by (auto simp: RefreshConfiguration_def split: sum.splits)
qed

lemma schedule_type_mismatch:
  \<open>GenStructSchedule ''{"q1":{"query":1}}'' = Inl UnmarshalTypeError\<close>
  by code_simp

theorem C2_refresh_all_or_nothing_witness:
  \<open>Get ''dev'' (single ''dev'' ((env_of ''{}'')\<lparr>Schedule_env := ''{"q1":{"query":1}}''\<rparr>)) =
     (Inr ((env_of ''{}'')\<lparr>Schedule_env := ''{"q1":{"query":1}}''\<rparr>),
      single ''dev'' ((env_of ''{}'')\<lparr>Schedule_env := ''{"q1":{"query":1}}''\<rparr>)) \<and>
   GenStructSchedule ''{"q1":{"query":1}}'' = Inl UnmarshalTypeError \<and>
   RefreshConfiguration ''dev'' (single ''dev'' ((env_of ''{}'')\<lparr>Schedule_env := ''{"q1":{"query":1}}''\<rparr>)) =
     (Some (Errorf ''error structuring schedule '' UnmarshalTypeError),
      single ''dev'' ((env_of ''{}'')\<lparr>Schedule_env := ''{"q1":{"query":1}}''\<rparr>))\<close>
proof -
  let ?env = \<open>(env_of ''{}'')\<lparr>Schedule_env := ''{"q1":{"query":1}}''\<rparr>\<close>
  have g: "Get ''dev'' (single ''dev'' ?env) = (Inr ?env, single ''dev'' ?env)"
    by (rule Get_single)
  have s: "GenStructSchedule (Schedule_env ?env) = Inl UnmarshalTypeError"
    by (simp add: schedule_type_mismatch)
  have o: "GenStructOptions (Options_env ?env) = Inr (Some [])"
    by (simp add: env_of_def GenStruct_empty_object)
  have p: "GenStructPacks (Packs_env ?env) = Inr (Some [])"
    by (simp add: env_of_def GenStruct_empty_object)
  have d: "GenStructDecorators (Decorators_env ?env) = Inr zero_DecoratorConf"
    by (simp add: env_of_def GenStruct_empty_object)
  have a: "GenStructATC (ATC_env ?env) = Inr (Some [])"
    by (simp add: env_of_def GenStruct_empty_object)
  from C2_refresh_all_or_nothing [OF g disjI2 [OF disjI1 [OF s]]] o p d a s
  have "RefreshConfiguration ''dev'' (single ''dev'' ?env) =
     (Some (Errorf ''error structuring schedule '' UnmarshalTypeError), single ''dev'' ?env)"
    by auto
  with g show ?thesis by (simp add: schedule_type_mismatch)
qed

text \<open>
  C4 (as stated, refuted). The claim says that \<^verbatim>\<open>query\<close> and \<^verbatim>\<open>interval\<close> are always
  written. Both fields carry \<^verbatim>\<open>omitempty\<close> like the other six: an entry with an empty
  query and interval zero is written as the empty object, in either mode.
\<close>

theorem C4_query_and_interval_are_omitted_when_zero:
  \<open>json_of_ScheduleQuery \<lparr>Query = [], Interval = 0, Removed = False, Snapshot = True,
       Platform = [], Version = [], Shard = 0, Denylist = False\<rparr> = JObj [(''snapshot'', JBool True)] \<and>
   GenSerializedConf (json_of_ScheduleQuery \<lparr>Query = [], Interval = 0, Removed = False,
       Snapshot = False, Platform = [], Version = [], Shard = 0, Denylist = False\<rparr>) True = Inr ''{}'' \<and>
   GenSerializedConf (json_of_ScheduleQuery \<lparr>Query = [], Interval = 0, Removed = False,
       Snapshot = False, Platform = [], Version = [], Shard = 0, Denylist = False\<rparr>) False = Inr ''{}''\<close>
  by code_simp

text \<open>
  C4 (amended). On encoding a schedule entry, every one of the eight fields, \<^verbatim>\<open>query\<close>
  and \<^verbatim>\<open>interval\<close> included, is left out when it holds its zero value and is written
  with its value otherwise; no other key is written, and no written value is \<^verbatim>\<open>null\<close>,
  \<^verbatim>\<open>false\<close>, the empty string or zero.
\<close>

theorem C4_every_field_is_omitted_when_zero:
  "\<exists>ms. json_of_ScheduleQuery q = JObj ms \<and>
     map_of ms ''query'' = (if Query q = [] then None else Some (JStr (Query q))) \<and>
     map_of ms ''interval'' =
       (if Interval q = 0 then None else Some (JNum (show_int (sint (Interval q))))) \<and>
     map_of ms ''removed'' = (if Removed q then Some (JBool True) else None) \<and>
     map_of ms ''snapshot'' = (if Snapshot q then Some (JBool True) else None) \<and>
     map_of ms ''platform'' = (if Platform q = [] then None else Some (JStr (Platform q))) \<and>
     map_of ms ''version'' = (if Version q = [] then None else Some (JStr (Version q))) \<and>
     map_of ms ''shard'' = (if Shard q = 0 then None else Some (JNum (show_int (sint (Shard q))))) \<and>
     map_of ms ''denylist'' = (if Denylist q then Some (JBool True) else None) \<and>
     list_all (\<lambda>k. k \<in> set ScheduleQuery_fields) (map fst ms) \<and>
     list_all (\<lambda>v. v \<noteq> JNull \<and> v \<noteq> JBool False \<and> v \<noteq> JStr [] \<and> v \<noteq> JNum ''0'')
       (map snd ms)"
  unfolding json_of_ScheduleQuery_def ScheduleQuery_fields_def
  apply (rule exI, intro conjI, rule refl)
  apply (simp_all add: show_int_sint_0)
  done

text \<open>
  C10. Decoding is lenient about extra fields. The schedule text below, laid out exactly
  as the encoder lays a schedule out, has the key \<^verbatim>\<open>foo\<close> that a schedule entry does not
  declare. It decodes without error to the entry with the query and the interval alone,
  the same value that the text without \<^verbatim>\<open>foo\<close> decodes to; encoding that value gives
  the text without \<^verbatim>\<open>foo\<close>, which is not the original text.
\<close>

theorem C10_unknown_keys_are_dropped:
  \<open>GenStructSchedule
     ''{\<newline>  "q": {\<newline>    "query": "x",\<newline>    "interval": 1,\<newline>    "foo": 2\<newline>  }\<newline>}'' =
     Inr (Some [(''q'', \<lparr>Query = ''x'', Interval = 1, Removed = False, Snapshot = False,
                          Platform = [], Version = [], Shard = 0, Denylist = False\<rparr>)]) \<and>
   GenStructSchedule
     ''{\<newline>  "q": {\<newline>    "query": "x",\<newline>    "interval": 1\<newline>  }\<newline>}'' =
     Inr (Some [(''q'', \<lparr>Query = ''x'', Interval = 1, Removed = False, Snapshot = False,
                          Platform = [], Version = [], Shard = 0, Denylist = False\<rparr>)]) \<and>
   GenSerializedConf (json_of_ScheduleConf
       (Some [(''q'', \<lparr>Query = ''x'', Interval = 1, Removed = False, Snapshot = False,
                         Platform = [], Version = [], Shard = 0, Denylist = False\<rparr>)])) True =
     Inr ''{\<newline>  "q": {\<newline>    "query": "x",\<newline>    "interval": 1\<newline>  }\<newline>}'' \<and>
   ''{\<newline>  "q": {\<newline>    "query": "x",\<newline>    "interval": 1\<newline>  }\<newline>}'' \<noteq>
   ''{\<newline>  "q": {\<newline>    "query": "x",\<newline>    "interval": 1,\<newline>    "foo": 2\<newline>  }\<newline>}''\<close>
  by code_simp

text \<open>
  C7 (the code does not do this). The claim lets \<^verbatim>\<open>addOption\<close> and
  \<^verbatim>\<open>addScheduleEntry\<close> install the entry for every environment whose fragment decodes.
  The text \<^verbatim>\<open>null\<close> decodes without error and leaves the map nil, and both functions
  then assign to the nil map, which is a run-time panic: nothing is installed and no
  error is returned. The text \<^verbatim>\<open>null\<close> is what \<^verbatim>\<open>UpdateConfigurationParts\<close> stores
  for a fragment that is nil in the configuration it is given, for instance one decoded
  by \<^verbatim>\<open>GenStructConf\<close> from a configuration without that key.
\<close>

theorem C7_add_panics_on_null_fragment:
  \<open>GenStructConf ''{"decorators":{}}'' = Inr zero_OsqueryConf \<and>
   UpdateConfigurationParts ''dev'' zero_OsqueryConf (single ''dev'' (env_of ''{}'')) =
     (None, single ''dev'' \<lparr>Options_env = ''null'', Schedule_env = ''null'', Packs_env = ''null'',
        Decorators_env = ''{}'', ATC_env = ''null'', Configuration_env = []\<rparr>) \<and>
   GenStructOptions ''null'' = Inr None \<and>
   GenStructSchedule ''null'' = Inr None \<and>
   AddOptionsConf ''dev'' ''aws_access_key_id'' (IStr ''X'')
       (single ''dev'' \<lparr>Options_env = ''null'', Schedule_env = ''null'', Packs_env = ''null'',
          Decorators_env = ''{}'', ATC_env = ''null'', Configuration_env = []\<rparr>) =
     (Panics ''assignment to entry in nil map'',
      single ''dev'' \<lparr>Options_env = ''null'', Schedule_env = ''null'', Packs_env = ''null'',
        Decorators_env = ''{}'', ATC_env = ''null'', Configuration_env = []\<rparr>) \<and>
   AddScheduleConfQuery ''dev'' ''processes''
       \<lparr>Query = ''SELECT * FROM processes;'', Interval = 60, Removed = False, Snapshot = False,
          Platform = [], Version = [], Shard = 0, Denylist = False\<rparr>
       (single ''dev'' \<lparr>Options_env = ''null'', Schedule_env = ''null'', Packs_env = ''null'',
          Decorators_env = ''{}'', ATC_env = ''null'', Configuration_env = []\<rparr>) =
     (Panics ''assignment to entry in nil map'',
      single ''dev'' \<lparr>Options_env = ''null'', Schedule_env = ''null'', Packs_env = ''null'',
        Decorators_env = ''{}'', ATC_env = ''null'', Configuration_env = []\<rparr>)\<close>
  by code_simp

text \<open>
  C8 (the code does not do this). The claim says that every operation either succeeds or
  returns an error to its caller. On an environment whose options fragment is the text
  \<^verbatim>\<open>null\<close>, \<^verbatim>\<open>AddOptionsConf\<close> does neither: the fragment decodes without error to a nil
  map, the assignment to it panics, and the call has no result at all, neither nil nor
  an error; \<^verbatim>\<open>AddScheduleConfQuery\<close> does the same on a schedule fragment \<^verbatim>\<open>null\<close>.
  The store is left as it was.
\<close>

theorem C8_add_neither_succeeds_nor_returns_an_error:
  \<open>fst (AddOptionsConf ''dev'' ''aws_access_key_id'' (IStr ''X'')
         (single ''dev'' ((env_of ''{}'')\<lparr>Options_env := ''null''\<rparr>))) =
     Panics ''assignment to entry in nil map'' \<and>
   (\<forall>err. fst (AddOptionsConf ''dev'' ''aws_access_key_id'' (IStr ''X'')
         (single ''dev'' ((env_of ''{}'')\<lparr>Options_env := ''null''\<rparr>))) \<noteq> Returns err) \<and>
   snd (AddOptionsConf ''dev'' ''aws_access_key_id'' (IStr ''X'')
         (single ''dev'' ((env_of ''{}'')\<lparr>Options_env := ''null''\<rparr>))) =
     single ''dev'' ((env_of ''{}'')\<lparr>Options_env := ''null''\<rparr>) \<and>
   fst (AddScheduleConfQuery ''dev'' ''processes''
         \<lparr>Query = ''SELECT * FROM processes;'', Interval = 60, Removed = False,
            Snapshot = False, Platform = [], Version = [], Shard = 0, Denylist = False\<rparr>
         (single ''dev'' ((env_of ''{}'')\<lparr>Schedule_env := ''null''\<rparr>))) =
     Panics ''assignment to entry in nil map'' \<and>
   (\<forall>err. fst (AddScheduleConfQuery ''dev'' ''processes''
         \<lparr>Query = ''SELECT * FROM processes;'', Interval = 60, Removed = False,
            Snapshot = False, Platform = [], Version = [], Shard = 0, Denylist = False\<rparr>
         (single ''dev'' ((env_of ''{}'')\<lparr>Schedule_env := ''null''\<rparr>))) \<noteq> Returns err)\<close>
proof -
  have a: \<open>AddOptionsConf ''dev'' ''aws_access_key_id'' (IStr ''X'')
         (single ''dev'' ((env_of ''{}'')\<lparr>Options_env := ''null''\<rparr>)) =
       (Panics ''assignment to entry in nil map'',
        single ''dev'' ((env_of ''{}'')\<lparr>Options_env := ''null''\<rparr>))\<close>
    by code_simp
  have b: \<open>fst (AddScheduleConfQuery ''dev'' ''processes''
         \<lparr>Query = ''SELECT * FROM processes;'', Interval = 60, Removed = False,
            Snapshot = False, Platform = [], Version = [], Shard = 0, Denylist = False\<rparr>
         (single ''dev'' ((env_of ''{}'')\<lparr>Schedule_env := ''null''\<rparr>))) =
     Panics ''assignment to entry in nil map''\<close>
    by code_simp
  show ?thesis
    unfolding a b by simp
qed







text \<open>
  C6. The text of \<^verbatim>\<open>GenEmptyConfiguration\<close>, in either mode, decodes with
  \<^verbatim>\<open>GenStructConf\<close> to the configuration whose \<^verbatim>\<open>decorators.always\<close> is the list of the
  five default queries, in their order, and whose options, schedule, packs and ATC are
  empty maps (the load list and the interval of the decorators are empty). The five
  queries are constants of the package; they are taken as well-formed UTF-8.
\<close>

theorem C6_empty_configuration_decodes:
  assumes "valid_utf8 (DecoratorUsers ds)" and "valid_utf8 (DecoratorHostname ds)"
    and "valid_utf8 (DecoratorLoggedInUser ds)" and "valid_utf8 (DecoratorOsqueryVersionHash ds)"
    and "valid_utf8 (DecoratorMD5Process ds)"
  shows "GenStructConf (GenEmptyConfiguration ds indent) =
     Inr \<lparr>Options = Some [], Schedule = Some [], Packs = Some [],
          Decorators = \<lparr>Load = [],
            Always = [DecoratorUsers ds, DecoratorHostname ds, DecoratorLoggedInUser ds,
                      DecoratorOsqueryVersionHash ds, DecoratorMD5Process ds],
            Interval_decorators = INil\<rparr>,
          ATC = Some []\<rparr>"
proof -
  have "valid_OsqueryConf (empty_cnf ds)"
    using assms
    by (simp add: valid_OsqueryConf_def empty_cnf_def map_wf_def valid_ScheduleConf_def
        decorators_wf_def json_of_OsqueryConf_def json_of_map_def json_of_ScheduleConf_def
        json_of_DecoratorConf_def maxNestingDepth_def del: valid_utf8.simps)
  from roundtrip_OsqueryConf[OF this, of indent]
  show ?thesis
    by (auto simp: GenEmptyConfiguration_def empty_cnf_def)
qed

definition example_defaults :: decorator_defaults where
  "example_defaults = \<lparr>
     DecoratorUsers = ''SELECT username AS osquery_user FROM processes WHERE pid < 100 LIMIT 1;'',
     DecoratorHostname = ''SELECT hostname FROM system_info;'',
     DecoratorLoggedInUser = ''SELECT user FROM logged_in_users ORDER BY time DESC LIMIT 1;'',
     DecoratorOsqueryVersionHash = ''SELECT version, md5 FROM osquery_info;'',
     DecoratorMD5Process = ''SELECT md5 FROM hash WHERE size > 0 AND mode & 1;''\<rparr>"

lemma example_defaults_utf8:
  "valid_utf8 (DecoratorUsers example_defaults)"
  "valid_utf8 (DecoratorHostname example_defaults)"
  "valid_utf8 (DecoratorLoggedInUser example_defaults)"
  "valid_utf8 (DecoratorOsqueryVersionHash example_defaults)"
  "valid_utf8 (DecoratorMD5Process example_defaults)"
  by code_simp+

theorem C6_empty_configuration_decodes_witness:
  "valid_utf8 (DecoratorUsers example_defaults) \<and>
   valid_utf8 (DecoratorHostname example_defaults) \<and>
   valid_utf8 (DecoratorLoggedInUser example_defaults) \<and>
   valid_utf8 (DecoratorOsqueryVersionHash example_defaults) \<and>
   valid_utf8 (DecoratorMD5Process example_defaults) \<and>
   GenStructConf (GenEmptyConfiguration example_defaults True) =
     Inr \<lparr>Options = Some [], Schedule = Some [], Packs = Some [],
          Decorators = \<lparr>Load = [],
            Always = [DecoratorUsers example_defaults, DecoratorHostname example_defaults,
                      DecoratorLoggedInUser example_defaults,
                      DecoratorOsqueryVersionHash example_defaults,
                      DecoratorMD5Process example_defaults],
            Interval_decorators = INil\<rparr>,
          ATC = Some []\<rparr> \<and>
   GenStructConf (GenEmptyConfiguration example_defaults False) =
     GenStructConf (GenEmptyConfiguration example_defaults True)"
  using C6_empty_configuration_decodes[OF example_defaults_utf8, of True]
    C6_empty_configuration_decodes[OF example_defaults_utf8, of False] example_defaults_utf8
  by simp

text \<open>
  C9. A composed configuration is written as one JSON object with the five keys
  \<^verbatim>\<open>options\<close>, \<^verbatim>\<open>schedule\<close>, \<^verbatim>\<open>packs\<close>, \<^verbatim>\<open>decorators\<close>, \<^verbatim>\<open>auto_table_construction\<close>
  and no other, whatever the fragments hold (a nil map is written as \<^verbatim>\<open>null\<close> under its
  key). This is so for the value handed to the encoder and, when the strings of the
  configuration are well-formed UTF-8 and its nesting is within the limit of the library,
  for the value that the text of \<^verbatim>\<open>GenSerializedConf\<close> is, in either mode.
\<close>

theorem C9_five_top_level_keys:
  assumes "json_ok (json_of_OsqueryConf c)"
    and "jdepth (json_of_OsqueryConf c) \<le> maxNestingDepth"
  shows "\<exists>raw opts sched pks decs atc.
     GenSerializedConf (json_of_OsqueryConf c) indent = Inr raw \<and>
     checkValid raw = Inr (JObj [(''options'', opts), (''schedule'', sched), (''packs'', pks),
        (''decorators'', decs), (''auto_table_construction'', atc)]) \<and>
     json_of_OsqueryConf c = JObj [(''options'', opts), (''schedule'', sched), (''packs'', pks),
        (''decorators'', decs), (''auto_table_construction'', atc)]"
proof -
  from checkValid_GenSerializedConf[OF assms, of indent]
  obtain raw where "GenSerializedConf (json_of_OsqueryConf c) indent = Inr raw"
    and "checkValid raw = Inr (json_of_OsqueryConf c)" by blast
  then show ?thesis
    by (simp add: json_of_OsqueryConf_def)
qed

lemma zero_OsqueryConf_text:
  "json_ok (json_of_OsqueryConf zero_OsqueryConf)"
  "jdepth (json_of_OsqueryConf zero_OsqueryConf) \<le> maxNestingDepth"
  by code_simp+

theorem C9_five_top_level_keys_witness:
  "json_ok (json_of_OsqueryConf zero_OsqueryConf) \<and>
   jdepth (json_of_OsqueryConf zero_OsqueryConf) \<le> maxNestingDepth \<and>
   (\<exists>raw opts sched pks decs atc.
     GenSerializedConf (json_of_OsqueryConf zero_OsqueryConf) True = Inr raw \<and>
     checkValid raw = Inr (JObj [(''options'', opts), (''schedule'', sched), (''packs'', pks),
        (''decorators'', decs), (''auto_table_construction'', atc)]) \<and>
     json_of_OsqueryConf zero_OsqueryConf = JObj [(''options'', opts), (''schedule'', sched),
        (''packs'', pks), (''decorators'', decs), (''auto_table_construction'', atc)])"
  using C9_five_top_level_keys[OF zero_OsqueryConf_text, of True] zero_OsqueryConf_text
  by simp

end
